theory Spec2Isabelle
  imports Complex_Main "HOL-Library.Monad_Syntax"
begin

section \<open>JavaScript values and the builtins the planner uses\<close>

text \<open>
  The feed delivers JSON records whose fields the code reads without any schema, so a
  field is a JavaScript value. Scalar values are modelled; a record is a HOL record of
  the fields the code reads, a missing key being \<open>JUndefined\<close>.

  A number is \<open>NaN\<close>, an infinity, or a finite double, which is represented by the
  rational it denotes. The operations that produce a number (reading a decimal literal,
  the subtraction) round their exact result to the nearest double, ties to even, as IEEE
  754 does (see \<open>to_double\<close>); a number found in a record of the feed is a double
  already, \<open>JSON.parse\<close> having rounded its literal. The one thing left out is the sign of
  zero: \<open>-0\<close> is \<open>0\<close>.
\<close>

datatype jsnum = NaN | NegInf | Fin rat | PosInf

datatype jsval = JUndefined | JNull | JBool bool | JNum jsnum | JStr string

text \<open>
  A thrown exception is the value \<open>None\<close>. Every exception the modelled code can raise
  by itself is a \<open>TypeError\<close> (a method called on \<open>undefined\<close>/\<open>null\<close>, or a method
  that the receiver does not have); failures of the network are outside the model, whose
  inputs are the answers of the feed.
\<close>

type_synonym 'a throws = "'a option"

subsection \<open>Numbers\<close>

text \<open>The number of binary digits of a positive integer.\<close>

function bit_length :: "int \<Rightarrow> int" where
  "bit_length n = (if n \<le> 0 then 0 else 1 + bit_length (n div 2))"
  by pat_completeness auto
termination
  by (relation "measure nat") auto

declare bit_length.simps [simp del]

text \<open>\<open>2 ^ k\<close> for an integer \<open>k\<close>.\<close>

definition pow2 :: "int \<Rightarrow> rat" where
  "pow2 k = (if 0 \<le> k then 2 ^ nat k else 1 / 2 ^ nat (- k))"

text \<open>The integer nearest to \<open>n / d\<close> for \<open>0 \<le> n\<close> and \<open>0 < d\<close>, the even one on a tie.\<close>

definition nearest_even :: "int \<Rightarrow> int \<Rightarrow> int" where
  "nearest_even n d =
     (let f = n div d; r2 = 2 * (n mod d)
      in if r2 < d then f else if d < r2 then f + 1 else if even f then f else f + 1)"

text \<open>
  The binary64 value nearest to the positive fraction \<open>a / b\<close>, ties to even, with no
  bound on the exponent from above. With \<open>2 ^ e \<le> a / b < 2 ^ (e + 1)\<close>, the doubles of
  that binade are the multiples of \<open>2 ^ (e - 52)\<close>; below \<open>2 ^ (- 1022)\<close> the subnormal
  doubles are the multiples of \<open>2 ^ (- 1074)\<close>. The exponent \<open>e\<close> is the difference of the
  numbers of bits of \<open>a\<close> and \<open>b\<close>, or one less.
\<close>

definition round_double :: "int \<Rightarrow> int \<Rightarrow> rat" where
  "round_double a b =
     (let e0 = bit_length a - bit_length b;
          e = (if (if 0 \<le> e0 then b * 2 ^ nat e0 \<le> a else b \<le> a * 2 ^ nat (- e0)) then e0 else e0 - 1);
          k = max e (- 1022) - 52;
          n = (if 0 \<le> k then nearest_even a (b * 2 ^ nat k) else nearest_even (a * 2 ^ nat (- k)) b)
      in of_int n * pow2 k)"

text \<open>
  The Number value of the fraction \<open>p / q\<close> with \<open>0 < q\<close>: the nearest double, and an
  infinity when that rounding reaches \<open>2 ^ 1024\<close>.
\<close>

definition to_double_frac :: "int \<Rightarrow> int \<Rightarrow> jsnum" where
  "to_double_frac p q =
     (if p = 0 then Fin 0
      else if 2 ^ 1024 \<le> round_double \<bar>p\<bar> q then (if p < 0 then NegInf else PosInf)
      else Fin (if p < 0 then - round_double \<bar>p\<bar> q else round_double \<bar>p\<bar> q))"

definition to_double :: "rat \<Rightarrow> jsnum" where
  "to_double x = to_double_frac (fst (quotient_of x)) (snd (quotient_of x))"

text \<open>\<open>m * 10 ^ e\<close> for an integer \<open>e\<close>.\<close>

definition scale10 :: "rat \<Rightarrow> int \<Rightarrow> rat" where
  "scale10 m e = (if 0 \<le> e then m * 10 ^ nat e else m / 10 ^ nat (- e))"

text \<open>The relational operator \<open><=\<close> on numbers: false as soon as an operand is \<open>NaN\<close>.\<close>

fun js_le :: "jsnum \<Rightarrow> jsnum \<Rightarrow> bool" where
  "js_le NaN _ = False"
| "js_le _ NaN = False"
| "js_le NegInf _ = True"
| "js_le _ PosInf = True"
| "js_le (Fin a) (Fin b) = (a \<le> b)"
| "js_le (Fin a) NegInf = False"
| "js_le PosInf _ = False"

text \<open>The operator \<open>-\<close> on numbers: the exact difference of two doubles, rounded.\<close>

fun js_sub :: "jsnum \<Rightarrow> jsnum \<Rightarrow> jsnum" where
  "js_sub NaN _ = NaN"
| "js_sub _ NaN = NaN"
| "js_sub PosInf PosInf = NaN"
| "js_sub NegInf NegInf = NaN"
| "js_sub PosInf _ = PosInf"
| "js_sub NegInf _ = NegInf"
| "js_sub (Fin a) PosInf = NegInf"
| "js_sub (Fin a) NegInf = PosInf"
| "js_sub (Fin a) (Fin b) = to_double (a - b)"

subsection \<open>Strings\<close>

definition is_ws :: "char \<Rightarrow> bool" where
  "is_ws c = (c \<in> set [CHR 0x09, CHR 0x0A, CHR 0x0B, CHR 0x0C, CHR 0x0D, CHR '' ''])"

definition is_digit :: "char \<Rightarrow> bool" where
  "is_digit c = (c \<in> set ''0123456789'')"

definition is_hex_digit :: "char \<Rightarrow> bool" where
  "is_hex_digit c = (c \<in> set ''0123456789abcdefABCDEF'')"

definition hex_val :: "char \<Rightarrow> nat" where
  "hex_val c =
     (case map_of (zip ''0123456789abcdefABCDEF''
                       [0, 1, 2, 3, 4, 5, 6, 7, 8, 9, 10, 11, 12, 13, 14, 15, 10, 11, 12, 13, 14, 15]) c of
        Some n \<Rightarrow> n | None \<Rightarrow> 0)"

text \<open>The value of a digit string in a radix.\<close>

definition digits_val :: "nat \<Rightarrow> string \<Rightarrow> nat" where
  "digits_val radix ds = foldl (\<lambda>a c. radix * a + hex_val c) 0 ds"

text \<open>
  \<open>String.prototype.toUpperCase\<close> on the ASCII letters. A string is a list of bytes
  here, so a letter outside ASCII stays as it is.
\<close>

definition upper_char :: "char \<Rightarrow> char" where
  "upper_char c =
     (case map_of (zip ''abcdefghijklmnopqrstuvwxyz'' ''ABCDEFGHIJKLMNOPQRSTUVWXYZ'') c of
        Some u \<Rightarrow> u | None \<Rightarrow> c)"

definition toUpperCase :: "string \<Rightarrow> string" where
  "toUpperCase s = map upper_char s"

subsection \<open>Number to string\<close>

function natToDigits :: "int \<Rightarrow> string" where
  "natToDigits n =
     (if n < 10 then [''0123456789'' ! nat n]
      else natToDigits (n div 10) @ [''0123456789'' ! nat (n mod 10)])"
  by pat_completeness auto
termination
  by (relation "measure nat") auto

declare natToDigits.simps [simp del]

function stripZeros :: "int \<Rightarrow> int \<times> nat" where
  "stripZeros s =
     (if 0 < s \<and> s mod 10 = 0
      then (case stripZeros (s div 10) of (s', z) \<Rightarrow> (s', Suc z))
      else (s, 0))"
  by pat_completeness auto
termination
  by (relation "measure nat") auto

declare stripZeros.simps [simp del]

text \<open>
  \<open>Number::toString\<close> of ECMAScript for a positive finite value \<open>x\<close>: the digits are those
  of the integer \<open>s\<close> with the fewest digits \<open>k\<close> such that \<open>s * 10 ^ (n - k)\<close> reads back as
  \<open>x\<close>; among several such \<open>s\<close> the one nearest to \<open>x\<close>, the even one on a tie.

  With \<open>10 ^ (n - 1) \<le> x < 10 ^ n\<close> (\<open>decimal_exponent\<close>), the candidates with \<open>k\<close> digits
  are the two integers around \<open>x / 10 ^ (n - k)\<close>; seventeen digits always suffice for a
  double.
\<close>

definition decimal_exponent :: "rat \<Rightarrow> int" where
  "decimal_exponent x =
     (let p = fst (quotient_of x); q = snd (quotient_of x);
          n = (if q \<le> p then int (length (natToDigits (p div q)))
               else 1 - int (length (natToDigits (q div p))))
      in if scale10 1 n \<le> x then n + 1 else n)"

text \<open>The integer part of \<open>x / 10 ^ ex\<close>.\<close>

definition digits_at :: "rat \<Rightarrow> int \<Rightarrow> int" where
  "digits_at x ex =
     (if 0 \<le> ex then fst (quotient_of x) div (snd (quotient_of x) * 10 ^ nat ex)
      else fst (quotient_of x) * 10 ^ nat (- ex) div snd (quotient_of x))"

text \<open>The digits and the exponent of the \<open>k\<close>-digit decimal that reads back as \<open>x\<close>, if any.\<close>

definition candidate :: "int \<Rightarrow> rat \<Rightarrow> (int \<times> int) option" where
  "candidate k x =
     (let ex = decimal_exponent x - k;
          lo = digits_at x ex;
          hi = lo + 1;
          oklo = (to_double (scale10 (of_int lo) ex) = to_double x);
          okhi = (to_double (scale10 (of_int hi) ex) = to_double x)
      in if oklo \<and> okhi
         then (if x - scale10 (of_int lo) ex < scale10 (of_int hi) ex - x then Some (lo, ex)
               else if scale10 (of_int hi) ex - x < x - scale10 (of_int lo) ex then Some (hi, ex)
               else if even lo then Some (lo, ex) else Some (hi, ex))
         else if oklo then Some (lo, ex)
         else if okhi then Some (hi, ex)
         else None)"

function shortest_from :: "int \<Rightarrow> rat \<Rightarrow> int \<times> int" where
  "shortest_from k x =
     (case candidate k x of
        Some r \<Rightarrow> r
      | None \<Rightarrow> if 17 \<le> k then (digits_at x (decimal_exponent x - k), decimal_exponent x - k)
                else shortest_from (k + 1) x)"
  by pat_completeness auto
termination
  by (relation "measure (\<lambda>(k, x). nat (17 - k))") auto

declare shortest_from.simps [simp del]

text \<open>
  The string of a positive finite value: with \<open>s\<close> the digits without trailing zeros, \<open>k\<close>
  their number and \<open>n\<close> the position of the decimal point, the value printed is
  \<open>s * 10 ^ (n - k)\<close>, in decimal notation for \<open>- 6 < n \<le> 21\<close> and with an exponent
  otherwise.
\<close>

definition posToString :: "rat \<Rightarrow> string" where
  "posToString r =
     (let (s0, ex) = shortest_from 1 r;
          (s, z) = stripZeros s0;
          ds = natToDigits s;
          k = int (length ds);
          n = k + int z + ex
      in if k \<le> n \<and> n \<le> 21 then ds @ replicate (nat (n - k)) CHR ''0''
         else if 0 < n \<and> n \<le> 21 then take (nat n) ds @ ''.'' @ drop (nat n) ds
         else if - 6 < n \<and> n \<le> 0 then ''0.'' @ replicate (nat (- n)) CHR ''0'' @ ds
         else let e = n - 1;
                  es = (if e < 0 then ''-'' else ''+'') @ natToDigits \<bar>e\<bar>
              in if k = 1 then ds @ ''e'' @ es
                 else take 1 ds @ ''.'' @ drop 1 ds @ ''e'' @ es)"

definition numberToString :: "jsnum \<Rightarrow> string" where
  "numberToString x =
     (case x of
        NaN \<Rightarrow> ''NaN''
      | PosInf \<Rightarrow> ''Infinity''
      | NegInf \<Rightarrow> ''-Infinity''
      | Fin r \<Rightarrow>
          if r = 0 then ''0''
          else if r < 0 then ''-'' @ posToString (- r)
          else posToString r)"

text \<open>The abstract operation \<open>ToString\<close>.\<close>

definition ToString :: "jsval \<Rightarrow> string" where
  "ToString v =
     (case v of
        JUndefined \<Rightarrow> ''undefined''
      | JNull \<Rightarrow> ''null''
      | JBool b \<Rightarrow> (if b then ''true'' else ''false'')
      | JNum x \<Rightarrow> numberToString x
      | JStr s \<Rightarrow> s)"

subsection \<open>parseFloat and parseInt\<close>

text \<open>An optional sign in front of a string: whether it is \<open>-\<close>, and the rest.\<close>

definition take_sign :: "string \<Rightarrow> bool \<times> string" where
  "take_sign t =
     (case t of
        [] \<Rightarrow> (False, t)
      | c # r \<Rightarrow> if c = CHR ''-'' then (True, r) else if c = CHR ''+'' then (False, r) else (False, t))"

text \<open>The exponent part, counted only when it has a digit.\<close>

definition exponent_of :: "string \<Rightarrow> int" where
  "exponent_of t =
     (case t of
        [] \<Rightarrow> 0
      | c # r \<Rightarrow>
          if c = CHR ''e'' \<or> c = CHR ''E''
          then (let (neg, d) = take_sign r; ds = takeWhile is_digit d
                in if ds = [] then 0
                   else if neg then - int (digits_val 10 ds) else int (digits_val 10 ds))
          else 0)"

text \<open>
  \<open>parseFloat\<close> on a string: leading white space is dropped, then the longest prefix that
  is a decimal literal is read and its value rounded to a double; no such prefix gives
  \<open>NaN\<close>.
\<close>

definition parseFloat_str :: "string \<Rightarrow> jsnum" where
  "parseFloat_str s =
     (let (neg, u) = take_sign (dropWhile is_ws s)
      in if take 8 u = ''Infinity'' then (if neg then NegInf else PosInf)
         else
           let ip = takeWhile is_digit u;
               r1 = dropWhile is_digit u;
               (fp, r2) = (case r1 of
                             [] \<Rightarrow> ([], r1)
                           | c # r \<Rightarrow> if c = CHR ''.''
                                      then (takeWhile is_digit r, dropWhile is_digit r)
                                      else ([], r1))
           in if ip = [] \<and> fp = [] then NaN
              else
                let m = of_nat (digits_val 10 (ip @ fp)) / 10 ^ length fp;
                    v = scale10 m (exponent_of r2)
                in to_double (if neg then - v else v))"

definition parseFloat :: "jsval \<Rightarrow> jsnum" where
  "parseFloat v = parseFloat_str (ToString v)"

text \<open>\<open>parseInt\<close> with no radix: base 16 after \<open>0x\<close>, base 10 otherwise.\<close>

definition parseInt_str :: "string \<Rightarrow> jsnum" where
  "parseInt_str s =
     (let (neg, u) = take_sign (dropWhile is_ws s);
          hex = (take 2 u = ''0x'' \<or> take 2 u = ''0X'');
          ds = (if hex then takeWhile is_hex_digit (drop 2 u) else takeWhile is_digit u);
          n = of_nat (digits_val (if hex then 16 else 10) ds)
      in if ds = [] then NaN else to_double (if neg then - n else n))"

definition parseInt :: "jsval \<Rightarrow> jsnum" where
  "parseInt v = parseInt_str (ToString v)"

subsection \<open>Equality, truthiness, method calls\<close>

text \<open>Strict equality \<open>===\<close>: \<open>NaN\<close> is not equal to itself.\<close>

fun strict_eq :: "jsval \<Rightarrow> jsval \<Rightarrow> bool" where
  "strict_eq (JNum a) (JNum b) = (a \<noteq> NaN \<and> a = b)"
| "strict_eq a b = (a = b)"

text \<open>\<open>Boolean(v)\<close>, the test of \<open>if (v)\<close>, \<open>!v\<close> and \<open>filter(Boolean)\<close>.\<close>

fun truthy :: "jsval \<Rightarrow> bool" where
  "truthy JUndefined = False"
| "truthy JNull = False"
| "truthy (JBool b) = b"
| "truthy (JNum x) = (x \<noteq> NaN \<and> x \<noteq> Fin 0)"
| "truthy (JStr s) = (s \<noteq> [])"

definition nullish :: "jsval \<Rightarrow> bool" where
  "nullish v = (v = JUndefined \<or> v = JNull)"

text \<open>\<open>a ?? b\<close>.\<close>

definition coalesce :: "jsval \<Rightarrow> jsval \<Rightarrow> jsval" where
  "coalesce a b = (if nullish a then b else a)"

text \<open>
  \<open>v.toString()\<close>: a \<open>TypeError\<close> on \<open>undefined\<close> and \<open>null\<close>, \<open>ToString\<close> on the other
  scalars.
\<close>

definition call_toString :: "jsval \<Rightarrow> jsval throws" where
  "call_toString v = (if nullish v then None else Some (JStr (ToString v)))"

text \<open>
  \<open>v.toUpperCase()\<close> and \<open>v.replace(...)\<close> exist on strings only: on another value the
  property is \<open>undefined\<close> and the call is a \<open>TypeError\<close>.
\<close>

definition call_toUpperCase :: "jsval \<Rightarrow> jsval throws" where
  "call_toUpperCase v = (case v of JStr s \<Rightarrow> Some (JStr (toUpperCase s)) | _ \<Rightarrow> None)"

text \<open>Optional chaining \<open>v?.m()\<close>: \<open>undefined\<close> on a nullish receiver, the call otherwise.\<close>

definition optchain :: "(jsval \<Rightarrow> jsval throws) \<Rightarrow> jsval \<Rightarrow> jsval throws" where
  "optchain m v = (if nullish v then Some JUndefined else m v)"

text \<open>
  \<open>parseFloat(x.toFixed(2))\<close>. \<open>NaN\<close> and the infinities print as themselves and read
  back. For a finite \<open>x\<close> of magnitude below \<open>10 ^ 21\<close>, \<open>toFixed(2)\<close> takes the integer \<open>n\<close>
  for which \<open>n / 100\<close> is nearest to the exact value of the magnitude of \<open>x\<close> (the larger
  \<open>n\<close> on a tie) and prints \<open>n / 100\<close> with two decimals; \<open>parseFloat\<close> reads that back as
  the double nearest to \<open>n / 100\<close>. A larger \<open>x\<close> prints as \<open>ToString\<close> does and reads back
  as itself.
\<close>

definition toFixed2 :: "jsnum \<Rightarrow> jsnum" where
  "toFixed2 x =
     (case x of
        Fin r \<Rightarrow>
          if 10 ^ 21 \<le> \<bar>r\<bar> then Fin r
          else if r < 0 then to_double (- (of_int \<lfloor>- r * 100 + 1 / 2\<rfloor> / 100))
          else to_double (of_int \<lfloor>r * 100 + 1 / 2\<rfloor> / 100)
      | _ \<Rightarrow> x)"

subsection \<open>Loops whose body may throw\<close>

text \<open>\<open>Array.prototype.map\<close>, \<open>filter\<close> and \<open>find\<close> with a callback that may throw: the first
  exception ends the traversal.\<close>

fun mapM :: "('a \<Rightarrow> 'b throws) \<Rightarrow> 'a list \<Rightarrow> 'b list throws" where
  "mapM f [] = Some []"
| "mapM f (x # xs) = do { y \<leftarrow> f x; ys \<leftarrow> mapM f xs; Some (y # ys) }"

fun filterM :: "('a \<Rightarrow> bool throws) \<Rightarrow> 'a list \<Rightarrow> 'a list throws" where
  "filterM p [] = Some []"
| "filterM p (x # xs) = do { b \<leftarrow> p x; ys \<leftarrow> filterM p xs; Some (if b then x # ys else ys) }"

fun findM :: "('a \<Rightarrow> bool throws) \<Rightarrow> 'a list \<Rightarrow> 'a option throws" where
  "findM p [] = Some None"
| "findM p (x # xs) = do { b \<leftarrow> p x; if b then Some (Some x) else findM p xs }"

text \<open>A loop that pushes the candidates of each element onto one array.\<close>

definition concatM :: "('a \<Rightarrow> 'b list throws) \<Rightarrow> 'a list \<Rightarrow> 'b list throws" where
  "concatM f xs = map_option concat (mapM f xs)"

text \<open>\<open>Array.prototype.findIndex\<close>: the first index where the test holds, \<open>-1\<close> when none.\<close>

fun findIndex :: "('a \<Rightarrow> bool) \<Rightarrow> 'a list \<Rightarrow> int" where
  "findIndex p [] = - 1"
| "findIndex p (x # xs) = (if p x then 0 else (let i = findIndex p xs in if i < 0 then - 1 else i + 1))"

text \<open>\<open>Set.prototype.add\<close> on a set kept in insertion order, and \<open>[...new Set(xs)]\<close>.\<close>

definition set_add :: "'a list \<Rightarrow> 'a \<Rightarrow> 'a list" where
  "set_add s x = (if x \<in> set s then s else s @ [x])"

definition new_Set :: "'a list \<Rightarrow> 'a list" where
  "new_Set xs = foldl set_add [] xs"

section \<open>The data of the planner\<close>

text \<open>A record of \<open>lineas_bus_secuencia.json\<close>, with the keys the code reads.\<close>

record seq_raw =
  dc_EtiquetaLinea :: jsval
  ayto_Linea :: jsval
  ayto_NombreSublinea :: jsval
  ayto_Ruta :: jsval
  ayto_SentidoRuta :: jsval
  ayto_NParada :: jsval
  ayto_NombreParada :: jsval
  ayto_PuntoKM :: jsval
  ayto_PosX :: jsval
  ayto_PosY :: jsval
  dc_identifier :: jsval

text \<open>A record of \<open>control_flotas_estimaciones.json\<close>, as \<open>lineasActivas\<close> reads it.\<close>

record est_raw =
  ayto_etiqLinea :: jsval

text \<open>What \<open>seqToEntry\<close> returns.\<close>

record entry =
  linea :: jsval
  sentido :: jsval
  puntoKm :: jsnum
  nombreParada :: jsval
  nParada :: jsval

text \<open>The fields of an estimate of \<open>getEstimacionesByParada\<close> that the planner reads.\<close>

record bus =
  tiempoMinutos :: jsval
  llegada :: jsval

record estimacion =
  paradaId :: jsval
  est_linea :: jsval
  destino1 :: jsval
  est_proximoBus :: bus

record parada_ref =
  numero :: jsval
  nombre :: jsval

record proximo =
  px_tiempoMinutos :: jsval
  llegadaEstimada :: jsval
  destino :: jsval

text \<open>A direct route (\<open>tipo: "directa"\<close>); \<open>proximoBus\<close> is \<open>None\<close> for \<open>null\<close>.\<close>

record directa =
  d_linea :: jsval
  d_sentido :: string
  d_paradaOrigen :: parada_ref
  d_paradaDestino :: parada_ref
  distanciaKm :: jsnum
  proximoBus :: "proximo option"

text \<open>A route with one transfer (\<open>tipo: "transbordo"\<close>).\<close>

record tramo_uno =
  t1_linea :: jsval
  t1_paradaOrigen :: parada_ref
  t1_paradaTransbordo :: parada_ref

record tramo_dos =
  t2_linea :: jsval
  t2_paradaTransbordo :: parada_ref
  t2_paradaDestino :: parada_ref

record transbordo =
  tramo1 :: tramo_uno
  tramo2 :: tramo_dos

text \<open>The result of \<open>planificarRuta\<close>, without the clock reading \<open>tiempoConsulta\<close>.\<close>

record plan =
  origen :: jsval
  destino_plan :: jsval
  rutasDirectas :: "directa list"
  rutasConTransbordo :: "transbordo list"

section \<open>planificarRuta\<close>

text \<open>\<open>luceneEscape\<close>: a backslash in front of each special character; \<open>value.replace\<close>
  exists on a string only.\<close>

definition luceneEscape :: "jsval \<Rightarrow> string throws" where
  "luceneEscape v =
     (case v of
        JStr s \<Rightarrow>
          Some (concat (map (\<lambda>c. if c \<in> set (''+-&|!(){}[]^~:/'' @ [CHR 0x22, CHR 0x5C])
                                   then [CHR 0x5C, c] else [c]) s))
      | _ \<Rightarrow> None)"

definition seqToEntry :: "seq_raw \<Rightarrow> entry throws" where
  "seqToEntry s = do {
     n \<leftarrow> optchain call_toString (ayto_NParada s);
     Some \<lparr> linea = coalesce (dc_EtiquetaLinea s) (ayto_Linea s),
            sentido = ayto_SentidoRuta s,
            puntoKm = parseFloat (coalesce (ayto_PuntoKM s) (JNum (Fin 0))),
            nombreParada = ayto_NombreParada s,
            nParada = n \<rparr>
   }"

text \<open>The label of a direction: \<open>parseInt(sentido) === 1 ? "ida" : "vuelta"\<close>.\<close>

definition sentidoLabel :: "jsval \<Rightarrow> string" where
  "sentidoLabel v = (if parseInt v = Fin 1 then ''ida'' else ''vuelta'')"

text \<open>\<open>lineasActivas\<close>: the truthy upper-cased labels of the snapshot (the elements of
  the \<open>Set\<close>).\<close>

definition lineasActivas_de :: "est_raw list \<Rightarrow> jsval list throws" where
  "lineasActivas_de todasEstimaciones = do {
     us \<leftarrow> mapM (\<lambda>r. optchain call_toUpperCase (ayto_etiqLinea r)) todasEstimaciones;
     Some (filter truthy us)
   }"

text \<open>\<open>paradaALineas\<close>: the entries of each stop, in the order of the records.\<close>

fun paradaALineas_de :: "(jsval \<rightharpoonup> entry list) \<Rightarrow> seq_raw list \<Rightarrow> (jsval \<rightharpoonup> entry list) throws" where
  "paradaALineas_de m [] = Some m"
| "paradaALineas_de m (s # ss) = do {
     n \<leftarrow> optchain call_toString (ayto_NParada s);
     if \<not> truthy n then paradaALineas_de m ss
     else do {
       e \<leftarrow> seqToEntry s;
       paradaALineas_de (m(n \<mapsto> (case m n of None \<Rightarrow> [] | Some es \<Rightarrow> es) @ [e])) ss
     }
   }"

subsection \<open>Direct routes\<close>

text \<open>The test of \<open>estimaciones.filter\<close> inside the loop of the direct routes.\<close>

definition estOrigen_test :: "jsval \<Rightarrow> entry \<Rightarrow> estimacion \<Rightarrow> bool throws" where
  "estOrigen_test paradaOrigenId lo e = do {
     p \<leftarrow> optchain call_toString (paradaId e);
     oid \<leftarrow> call_toString paradaOrigenId;
     if \<not> strict_eq p oid then Some False
     else do {
       a \<leftarrow> optchain call_toUpperCase (est_linea e);
       b \<leftarrow> optchain call_toUpperCase (linea lo);
       Some (strict_eq a b)
     }
   }"

text \<open>The body of the inner loop: what one pair \<open>(lo, ld)\<close> pushes on \<open>rutasDirectas\<close>.\<close>

definition directa_de :: "jsval \<Rightarrow> jsval \<Rightarrow> estimacion list \<Rightarrow> entry \<Rightarrow> entry \<Rightarrow> directa list throws" where
  "directa_de paradaOrigenId paradaDestinoId estimaciones lo ld =
     (if strict_eq (linea lo) (linea ld) \<and> strict_eq (sentido lo) (sentido ld)
      then if js_le (puntoKm lo) (puntoKm ld)
        then do {
          estOrigen \<leftarrow> filterM (estOrigen_test paradaOrigenId lo) estimaciones;
          Some [\<lparr> d_linea = linea lo,
                  d_sentido = sentidoLabel (sentido lo),
                  d_paradaOrigen = \<lparr> numero = paradaOrigenId, nombre = nombreParada lo \<rparr>,
                  d_paradaDestino = \<lparr> numero = paradaDestinoId, nombre = nombreParada ld \<rparr>,
                  distanciaKm = toFixed2 (js_sub (puntoKm ld) (puntoKm lo)),
                  proximoBus =
                    (case estOrigen of
                       [] \<Rightarrow> None
                     | e # _ \<Rightarrow> Some \<lparr> px_tiempoMinutos = tiempoMinutos (est_proximoBus e),
                                       llegadaEstimada = llegada (est_proximoBus e),
                                       destino = destino1 e \<rparr>) \<rparr>]
        }
        else Some []
      else Some [])"

text \<open>The two nested loops, over the origin entries and then over the destination entries.\<close>

definition rutasDirectas_de ::
  "jsval \<Rightarrow> jsval \<Rightarrow> estimacion list \<Rightarrow> entry list \<Rightarrow> entry list \<Rightarrow> directa list throws" where
  "rutasDirectas_de paradaOrigenId paradaDestinoId estimaciones lineasOrigen lineasDestino =
     concatM (\<lambda>lo. concatM (directa_de paradaOrigenId paradaDestinoId estimaciones lo) lineasDestino)
       lineasOrigen"

text \<open>The test \<open>t.linea === v.linea && t.sentido === v.sentido\<close> of the \<open>findIndex\<close>.\<close>

definition misma_ruta :: "directa \<Rightarrow> directa \<Rightarrow> bool" where
  "misma_ruta v t = (strict_eq (d_linea t) (d_linea v) \<and> d_sentido t = d_sentido v)"

text \<open>\<open>rutasDirectasUnicas\<close>: the filter on \<open>(v, i, a)\<close> keeps the first route of each line and
  direction, when its line is active.\<close>

definition unica_test :: "jsval list \<Rightarrow> directa list \<Rightarrow> nat \<times> directa \<Rightarrow> bool throws" where
  "unica_test lineasActivas a iv =
     (case iv of (i, v) \<Rightarrow>
        if findIndex (misma_ruta v) a = int i
        then do { u \<leftarrow> optchain call_toUpperCase (d_linea v); Some (u \<in> set lineasActivas) }
        else Some False)"

definition rutasDirectasUnicas_de :: "jsval list \<Rightarrow> directa list \<Rightarrow> directa list throws" where
  "rutasDirectasUnicas_de lineasActivas a =
     map_option (map snd) (filterM (unica_test lineasActivas a) (zip [0..<length a] a))"

subsection \<open>Routes with a transfer\<close>

text \<open>\<open>seq["dc:EtiquetaLinea"] ?? seq["ayto:Linea"]\<close>.\<close>

definition linea_de :: "seq_raw \<Rightarrow> jsval" where
  "linea_de s = coalesce (dc_EtiquetaLinea s) (ayto_Linea s)"

definition sirve_origen :: "entry list \<Rightarrow> seq_raw \<Rightarrow> bool" where
  "sirve_origen lineasOrigen s = (\<exists>lo \<in> set lineasOrigen. strict_eq (linea lo) (linea_de s))"

text \<open>\<open>paradasIntermedias\<close>: the stops of the lines of the origin, in insertion order.\<close>

fun paradasIntermedias_de :: "entry list \<Rightarrow> jsval list \<Rightarrow> seq_raw list \<Rightarrow> jsval list throws" where
  "paradasIntermedias_de lineasOrigen acc [] = Some acc"
| "paradasIntermedias_de lineasOrigen acc (s # ss) = do {
     n \<leftarrow> optchain call_toString (ayto_NParada s);
     paradasIntermedias_de lineasOrigen (if sirve_origen lineasOrigen s then set_add acc n else acc) ss
   }"

text \<open>The test of \<open>seqs.find\<close>: a record of a line of the origin at the stop \<open>pi\<close>.\<close>

definition seqOrigen_test :: "entry list \<Rightarrow> jsval \<Rightarrow> seq_raw \<Rightarrow> bool throws" where
  "seqOrigen_test lineasOrigen p_i s = do {
     n \<leftarrow> optchain call_toString (ayto_NParada s);
     Some (strict_eq n p_i \<and> sirve_origen lineasOrigen s)
   }"

text \<open>The body of the innermost loop: what one pair \<open>(li, ld)\<close> pushes on \<open>rutasTransbordo\<close>.\<close>

definition transbordo_de ::
  "jsval \<Rightarrow> jsval \<Rightarrow> seq_raw list \<Rightarrow> entry list \<Rightarrow> jsval \<Rightarrow> entry \<Rightarrow> entry \<Rightarrow> transbordo list throws" where
  "transbordo_de paradaOrigenId paradaDestinoId seqs lineasOrigen p_i li ld =
     (if strict_eq (linea li) (linea ld) \<and> strict_eq (sentido li) (sentido ld)
         \<and> js_le (puntoKm li) (puntoKm ld)
      then do {
        seqOrigen \<leftarrow> findM (seqOrigen_test lineasOrigen p_i) seqs;
        case seqOrigen of
          None \<Rightarrow> Some []
        | Some so \<Rightarrow>
            let lineaOrigen = linea_de so in
            Some [\<lparr> tramo1 = \<lparr> t1_linea = lineaOrigen,
                               t1_paradaOrigen =
                                 \<lparr> numero = paradaOrigenId,
                                   nombre = coalesce
                                     (case find (\<lambda>lo. strict_eq (linea lo) lineaOrigen) lineasOrigen of
                                        None \<Rightarrow> JUndefined | Some lo \<Rightarrow> nombreParada lo)
                                     paradaOrigenId \<rparr>,
                               t1_paradaTransbordo = \<lparr> numero = p_i, nombre = ayto_NombreParada so \<rparr> \<rparr>,
                    tramo2 = \<lparr> t2_linea = linea li,
                               t2_paradaTransbordo = \<lparr> numero = p_i, nombre = nombreParada li \<rparr>,
                               t2_paradaDestino = \<lparr> numero = paradaDestinoId, nombre = nombreParada ld \<rparr> \<rparr> \<rparr>]
      }
      else Some [])"

text \<open>The body of the loop over \<open>paradasIntermedias\<close>.\<close>

definition transbordos_en ::
  "jsval \<Rightarrow> jsval \<Rightarrow> seq_raw list \<Rightarrow> (jsval \<rightharpoonup> entry list) \<Rightarrow> entry list \<Rightarrow> entry list \<Rightarrow> jsval
     \<Rightarrow> transbordo list throws" where
  "transbordos_en paradaOrigenId paradaDestinoId seqs paradaALineas lineasOrigen lineasDestino p_i = do {
     oid \<leftarrow> call_toString paradaOrigenId;
     skip \<leftarrow> (if strict_eq p_i oid then Some True
              else map_option (strict_eq p_i) (call_toString paradaDestinoId));
     if skip then Some []
     else
       let lineasIntermedias = (case paradaALineas p_i of None \<Rightarrow> [] | Some es \<Rightarrow> es) in
       concatM (\<lambda>li. concatM (transbordo_de paradaOrigenId paradaDestinoId seqs lineasOrigen p_i li)
                        lineasDestino)
         lineasIntermedias
   }"

definition rutasTransbordo_de ::
  "jsval \<Rightarrow> jsval \<Rightarrow> seq_raw list \<Rightarrow> (jsval \<rightharpoonup> entry list) \<Rightarrow> entry list \<Rightarrow> entry list
     \<Rightarrow> transbordo list throws" where
  "rutasTransbordo_de paradaOrigenId paradaDestinoId seqs paradaALineas lineasOrigen lineasDestino = do {
     paradasIntermedias \<leftarrow> paradasIntermedias_de lineasOrigen [] seqs;
     concatM (transbordos_en paradaOrigenId paradaDestinoId seqs paradaALineas lineasOrigen lineasDestino)
       paradasIntermedias
   }"

text \<open>The test of \<open>rutasTransbordoActivas\<close>: both lines are active.\<close>

definition transbordo_activo :: "jsval list \<Rightarrow> transbordo \<Rightarrow> bool throws" where
  "transbordo_activo lineasActivas r = do {
     u1 \<leftarrow> optchain call_toUpperCase (t1_linea (tramo1 r));
     if u1 \<notin> set lineasActivas then Some False
     else do {
       u2 \<leftarrow> optchain call_toUpperCase (t2_linea (tramo2 r));
       Some (u2 \<in> set lineasActivas)
     }
   }"

subsection \<open>The whole function\<close>

text \<open>
  The answers of the feed are arguments: \<open>resOrigen\<close> and \<open>resDestino\<close> to the two queries by
  stop, \<open>feedSeqOrigen\<close> and \<open>feedSeqDestino\<close> to the two queries by lines (asked only when
  there is a line), \<open>estimaciones\<close> from \<open>getEstimacionesByParada\<close>, \<open>todasEstimaciones\<close> from
  the cache.
\<close>

definition planificarRuta ::
  "jsval \<Rightarrow> jsval \<Rightarrow> seq_raw list \<Rightarrow> seq_raw list \<Rightarrow> seq_raw list \<Rightarrow> seq_raw list
     \<Rightarrow> estimacion list \<Rightarrow> est_raw list \<Rightarrow> plan throws" where
  "planificarRuta paradaOrigenId paradaDestinoId resOrigen resDestino feedSeqOrigen feedSeqDestino
       estimaciones todasEstimaciones = do {
     qOrigen \<leftarrow> Option.bind (call_toString paradaOrigenId) luceneEscape;
     qDestino \<leftarrow> Option.bind (call_toString paradaDestinoId) luceneEscape;
     lineasOrigen \<leftarrow> mapM seqToEntry resOrigen;
     lineasDestino \<leftarrow> mapM seqToEntry resDestino;
     let lineasUnicasOrigen = new_Set (filter truthy (map linea lineasOrigen));
     let lineasUnicasDestino = new_Set (filter truthy (map linea lineasDestino));
     qLineasOrigen \<leftarrow> mapM luceneEscape lineasUnicasOrigen;
     qLineasDestino \<leftarrow> mapM luceneEscape lineasUnicasDestino;
     let resSeqLineasOrigen = (if lineasUnicasOrigen \<noteq> [] then feedSeqOrigen else []);
     let resSeqLineasDestino = (if lineasUnicasDestino \<noteq> [] then feedSeqDestino else []);
     lineasActivas \<leftarrow> lineasActivas_de todasEstimaciones;
     let seqs = resSeqLineasOrigen;
     paradaALineas \<leftarrow> paradaALineas_de Map.empty (resSeqLineasOrigen @ resSeqLineasDestino);
     rutasDirectas \<leftarrow> rutasDirectas_de paradaOrigenId paradaDestinoId estimaciones lineasOrigen lineasDestino;
     rutasDirectasUnicas \<leftarrow> rutasDirectasUnicas_de lineasActivas rutasDirectas;
     rutasTransbordo \<leftarrow>
       (if rutasDirectasUnicas = []
        then rutasTransbordo_de paradaOrigenId paradaDestinoId seqs paradaALineas lineasOrigen lineasDestino
        else Some []);
     rutasTransbordoActivas \<leftarrow> filterM (transbordo_activo lineasActivas) rutasTransbordo;
     Some \<lparr> origen = paradaOrigenId,
            destino_plan = paradaDestinoId,
            rutasDirectas = rutasDirectasUnicas,
            rutasConTransbordo = take 5 rutasTransbordoActivas \<rparr>
   }"

section \<open>getSecuenciaLinea: the mapping of a record\<close>



section \<open>The cache of the estimates\<close>

text \<open>
  \<open>_cache\<close> is a module variable, \<open>Date.now()\<close> the clock in milliseconds and
  \<open>fetchAllPages\<close> a request to the feed. \<open>getTodasEstimacionesCached\<close> is the function
  when nothing else runs between its beginning and its end: it takes the cache, the
  reading of the clock and the answer that a request would get (a snapshot, or the
  exception of a failed request), and returns the result of the call, the cache after it
  and the number of requests it made.
\<close>

record snapshot =
  total :: jsval
  resources :: "est_raw list"

record cache =
  data :: "snapshot option"
  ts :: int

datatype fetch_error = HttpError

definition CACHE_TTL_MS :: int where
  "CACHE_TTL_MS = 30000"

definition cache_inicial :: cache where
  "cache_inicial = \<lparr> data = None, ts = 0 \<rparr>"

definition getTodasEstimacionesCached ::
  "int \<Rightarrow> fetch_error + snapshot \<Rightarrow> cache \<Rightarrow> (fetch_error + snapshot) \<times> cache \<times> nat" where
  "getTodasEstimacionesCached now fetched c =
     (if data c \<noteq> None \<and> now - ts c < CACHE_TTL_MS then (Inr (the (data c)), c, 0)
      else case fetched of
             Inl e \<Rightarrow> (Inl e, c, 1)
           | Inr result \<Rightarrow> (Inr result, \<lparr> data = Some result, ts = now \<rparr>, 1))"

text \<open>
  The function is asynchronous. A call reads the clock and tests the cache at once; on a
  miss it sends the request and is suspended at the \<open>await\<close>, and its two assignments to
  \<open>_cache\<close> run only when the request is answered, with the \<open>now\<close> that the call read at
  its beginning. Other calls can begin in between. The state of the module is the cache,
  the clock readings of the calls that wait for their request (the oldest first) and the
  number of requests sent so far.
\<close>

record modulo =
  cache_m :: cache
  pendientes :: "int list"
  peticiones :: nat

text \<open>
  The events of a run: a call begins with a reading of the clock; the request of the
  waiting call at a position of \<open>pendientes\<close> is answered, by a snapshot or by a failure.
\<close>

datatype evento = Llama int | Responde nat "fetch_error + snapshot"

text \<open>
  A call that finds the cache fresh returns at once and changes nothing. An answer with a
  snapshot runs the two assignments; a failure throws in the waiting call, which leaves
  the cache as it is. An answer for a position where no call waits is no event of the
  program, and changes nothing.
\<close>

fun paso :: "evento \<Rightarrow> modulo \<Rightarrow> modulo" where
  "paso (Llama now) s =
     (if data (cache_m s) \<noteq> None \<and> now - ts (cache_m s) < CACHE_TTL_MS then s
      else s \<lparr> pendientes := pendientes s @ [now], peticiones := Suc (peticiones s) \<rparr>)"
| "paso (Responde i fetched) s =
     (if i < length (pendientes s)
      then s \<lparr> cache_m := (case fetched of
                             Inl e \<Rightarrow> cache_m s
                           | Inr result \<Rightarrow> \<lparr> data = Some result, ts = pendientes s ! i \<rparr>),
               pendientes := take i (pendientes s) @ drop (Suc i) (pendientes s) \<rparr>
      else s)"

definition traza :: "evento list \<Rightarrow> modulo \<Rightarrow> modulo" where
  "traza evs s = foldl (\<lambda>s' e. paso e s') s evs"

text \<open>
  Calls that do not overlap: each call, given with its clock reading and the answer that
  its request would get, ends before the next one begins.
\<close>

definition secuencial :: "(int \<times> (fetch_error + snapshot)) list \<Rightarrow> evento list" where
  "secuencial calls = concat (map (\<lambda>(now, fetched). [Llama now, Responde 0 fetched]) calls)"

definition modulo_inicial :: modulo where
  "modulo_inicial = \<lparr> cache_m = cache_inicial, pendientes = [], peticiones = 0 \<rparr>"

section \<open>The two tools that plan a route\<close>

text \<open>
  A handler either answers with \<open>err(mensaje)\<close> before it reaches the planner, or calls
  \<open>planificarRuta\<close> with two arguments; what it does with the plan is not modelled.
\<close>

datatype invocacion = Rechaza string | Invoca jsval jsval

text \<open>\<open>planificar_ruta\<close>: both arguments are strings (\<open>z.string()\<close>).\<close>

definition planificar_ruta :: "string \<Rightarrow> string \<Rightarrow> invocacion" where
  "planificar_ruta parada_origen parada_destino =
     (if parada_origen = parada_destino
      then Rechaza ''La parada de origen y destino son la misma.''
      else Invoca (JStr parada_origen) (JStr parada_destino))"

text \<open>A stop as \<open>buscarParadas\<close> returns it, with the fields the handler reads.\<close>

record parada =
  p_numero :: jsval
  p_nombre :: jsval
  p_direccion :: jsval

text \<open>\<open>ruta_desde_nombres\<close>, given what \<open>buscarParadas\<close> found for each of the two names.\<close>

definition ruta_desde_nombres :: "string \<Rightarrow> string \<Rightarrow> parada list \<Rightarrow> parada list \<Rightarrow> invocacion" where
  "ruta_desde_nombres origen_txt destino_txt paradasOrigen paradasDestino =
     (case paradasOrigen of
        [] \<Rightarrow> Rechaza (''No se encontraron paradas cerca de '' @ [CHR 0x22] @ origen_txt @ [CHR 0x22]
                         @ ''. Prueba con un nombre diferente.'')
      | paradaOrigen # _ \<Rightarrow>
          (case paradasDestino of
             [] \<Rightarrow> Rechaza (''No se encontraron paradas cerca de '' @ [CHR 0x22] @ destino_txt @ [CHR 0x22]
                              @ ''. Prueba con un nombre diferente.'')
           | paradaDestino # _ \<Rightarrow> Invoca (p_numero paradaOrigen) (p_numero paradaDestino)))"

section \<open>Example records\<close>

text \<open>A record of the sequence with a label, a direction, a stop, its name and a position,
  all of them strings, and the other keys missing.\<close>

abbreviation registro :: "string \<Rightarrow> string \<Rightarrow> string \<Rightarrow> string \<Rightarrow> string \<Rightarrow> seq_raw" where
  "registro l s n nom km \<equiv>
     \<lparr> dc_EtiquetaLinea = JStr l, ayto_Linea = JUndefined, ayto_NombreSublinea = JUndefined,
       ayto_Ruta = JUndefined, ayto_SentidoRuta = JStr s, ayto_NParada = JStr n,
       ayto_NombreParada = JStr nom, ayto_PuntoKM = JStr km, ayto_PosX = JUndefined,
       ayto_PosY = JUndefined, dc_identifier = JUndefined \<rparr>"

abbreviation activa :: "string \<Rightarrow> est_raw" where
  "activa l \<equiv> \<lparr> ayto_etiqLinea = JStr l \<rparr>"

text \<open>The routes that the examples expect: the direct route of line 15 from stop 539 to stop
  1234, and the route that takes line 7 to stop 200 and another line from there.\<close>

abbreviation directa_15 :: directa where
  "directa_15 \<equiv>
     \<lparr> d_linea = JStr ''15'', d_sentido = ''ida'',
       d_paradaOrigen = \<lparr> numero = JStr ''539'', nombre = JStr ''Origen'' \<rparr>,
       d_paradaDestino = \<lparr> numero = JStr ''1234'', nombre = JStr ''Destino'' \<rparr>,
       distanciaKm = Fin (7 / 2), proximoBus = None \<rparr>"

abbreviation transbordo_en_200 :: "string \<Rightarrow> transbordo" where
  "transbordo_en_200 l \<equiv>
     \<lparr> tramo1 = \<lparr> t1_linea = JStr ''7'',
                  t1_paradaOrigen = \<lparr> numero = JStr ''539'', nombre = JStr ''Origen'' \<rparr>,
                  t1_paradaTransbordo = \<lparr> numero = JStr ''200'', nombre = JStr ''Cruce'' \<rparr> \<rparr>,
       tramo2 = \<lparr> t2_linea = JStr l,
                  t2_paradaTransbordo = \<lparr> numero = JStr ''200'', nombre = JStr ''Cruce'' \<rparr>,
                  t2_paradaDestino = \<lparr> numero = JStr ''1234'', nombre = JStr ''Destino'' \<rparr> \<rparr> \<rparr>"

text \<open>
  First example: stop 539 has the lines 15 and 7, stop 1234 the lines 15 and 12; line 7
  reaches stop 200, from where line 12 goes on to stop 1234; the three lines are active.
\<close>

abbreviation llamada_directa :: "plan throws" where
  "llamada_directa \<equiv>
     planificarRuta (JStr ''539'') (JStr ''1234'')
       [registro ''15'' ''1'' ''539'' ''Origen'' ''1.25'', registro ''7'' ''1'' ''539'' ''Origen'' ''0.5'']
       [registro ''15'' ''1'' ''1234'' ''Destino'' ''4.75'', registro ''12'' ''1'' ''1234'' ''Destino'' ''9.0'']
       [registro ''7'' ''1'' ''539'' ''Origen'' ''0.5'', registro ''7'' ''1'' ''200'' ''Cruce'' ''3.0'']
       [registro ''12'' ''1'' ''200'' ''Cruce'' ''1.0'', registro ''12'' ''1'' ''1234'' ''Destino'' ''9.0'']
       []
       [activa ''15'', activa ''7'', activa ''12'']"

abbreviation plan_directo :: plan where
  "plan_directo \<equiv>
     \<lparr> origen = JStr ''539'', destino_plan = JStr ''1234'',
       rutasDirectas = [directa_15], rutasConTransbordo = [] \<rparr>"

text \<open>
  Second example: stop 539 has the lines 7 and 8, stop 1234 the lines 12 and 13, and the
  four lines meet at stop 200; the four lines are active.
\<close>

abbreviation llamada_transbordo :: "plan throws" where
  "llamada_transbordo \<equiv>
     planificarRuta (JStr ''539'') (JStr ''1234'')
       [registro ''7'' ''1'' ''539'' ''Origen'' ''0.5'', registro ''8'' ''1'' ''539'' ''Origen'' ''0.25'']
       [registro ''12'' ''1'' ''1234'' ''Destino'' ''9.0'', registro ''13'' ''2'' ''1234'' ''Destino'' ''6.0'']
       [registro ''7'' ''1'' ''539'' ''Origen'' ''0.5'', registro ''7'' ''1'' ''200'' ''Cruce'' ''3.0'',
        registro ''8'' ''1'' ''539'' ''Origen'' ''0.25'', registro ''8'' ''1'' ''200'' ''Cruce'' ''2.0'']
       [registro ''12'' ''1'' ''200'' ''Cruce'' ''1.0'', registro ''12'' ''1'' ''1234'' ''Destino'' ''9.0'',
        registro ''13'' ''2'' ''200'' ''Cruce'' ''4.0'', registro ''13'' ''2'' ''1234'' ''Destino'' ''6.0'']
       []
       [activa ''7'', activa ''8'', activa ''12'', activa ''13'']"

abbreviation plan_transbordo :: plan where
  "plan_transbordo \<equiv>
     \<lparr> origen = JStr ''539'', destino_plan = JStr ''1234'', rutasDirectas = [],
       rutasConTransbordo = [transbordo_en_200 ''12'', transbordo_en_200 ''13''] \<rparr>"

text \<open>Two snapshots of the estimates.\<close>

abbreviation snapshot_15 :: snapshot where
  "snapshot_15 \<equiv> \<lparr> total = JNum (Fin 1), resources = [activa ''15''] \<rparr>"

abbreviation snapshot_7 :: snapshot where
  "snapshot_7 \<equiv> \<lparr> total = JNum (Fin 1), resources = [activa ''7''] \<rparr>"

section \<open>Lemmas on the loops\<close>

lemma mapM_Some_iff: "mapM f xs = Some ys \<longleftrightarrow> list_all2 (\<lambda>x y. f x = Some y) xs ys"
proof (induction xs arbitrary: ys)
  case Nil
  then show ?case by auto
next
  case (Cons x xs)
  then show ?case by (cases ys) (auto simp: bind_eq_Some_conv)
qed

lemma filterM_Some: "filterM p xs = Some ys \<Longrightarrow> ys = filter (\<lambda>x. p x = Some True) xs"
  by (induction xs arbitrary: ys) (auto simp: bind_eq_Some_conv)


lemma optchain_toString_total: "\<exists>n. optchain call_toString v = Some n"
  by (simp add: optchain_def call_toString_def)

lemma seqToEntry_total: "\<exists>e. seqToEntry s = Some e"
  using optchain_toString_total [of "ayto_NParada s"] by (auto simp: seqToEntry_def)

lemma paradaALineas_de_total: "\<exists>m'. paradaALineas_de m ss = Some m'"
proof (induction ss arbitrary: m)
  case Nil
  then show ?case by simp
next
  case (Cons s ss)
  obtain n where n: "optchain call_toString (ayto_NParada s) = Some n"
    using optchain_toString_total by blast
  obtain e where e: "seqToEntry s = Some e" using seqToEntry_total by blast
  from n e Cons.IH show ?case by simp
qed

lemma planificarRuta_SomeE:
  assumes "planificarRuta oi di rO rD fO fD es tod = Some plan"
  obtains los lds act m cands rts where
    "mapM seqToEntry rO = Some los"
    "mapM seqToEntry rD = Some lds"
    "lineasActivas_de tod = Some act"
    "rutasDirectas_de oi di es los lds = Some cands"
    "rutasDirectasUnicas_de act cands = Some (rutasDirectas plan)"
    "if rutasDirectas plan = []
     then rutasTransbordo_de oi di (if new_Set (filter truthy (map linea los)) \<noteq> [] then fO else []) m los lds
            = Some rts
     else rts = []"
    "rutasConTransbordo plan = take 5 (filter (\<lambda>r. transbordo_activo act r = Some True) rts)"
    "paradaALineas_de Map.empty
       ((if new_Set (filter truthy (map linea los)) \<noteq> [] then fO else [])
        @ (if new_Set (filter truthy (map linea lds)) \<noteq> [] then fD else [])) = Some m"
  using assms
  apply (simp only: planificarRuta_def Let_def bind_eq_Some_conv)
  apply (elim exE conjE)
  subgoal premises p for q1 q1' q2 q2' los lds ql1 ql2 act m cands us rts transAct
  proof -
    from p(15) have t: "transAct = filter (\<lambda>r. transbordo_activo act r = Some True) rts"
      by (rule filterM_Some)
    from p(16) have pl: "rutasDirectas plan = us" "rutasConTransbordo plan = take 5 transAct"
      by auto
    show ?thesis
      using p(1) [of los lds act cands m rts] p(6,7,10,11,12,13,14) t pl
      by (auto split: if_splits)
  qed
  done


lemma planificarRuta_sin_transbordos:
  assumes "planificarRuta oi di rO rD fO fD es tod = Some plan"
    and "rutasDirectas plan \<noteq> []"
  shows "planificarRuta oi di rO rD fO' fD' es tod = Some plan"
  using assms(1)
  apply (simp only: planificarRuta_def Let_def bind_eq_Some_conv)
  apply (elim exE conjE)
  subgoal premises p for q1 q1' q2 q2' los lds ql1 ql2 act m cands us rts rtsAct
  proof -
    from p(15) have pl: "plan = \<lparr> origen = oi, destino_plan = di, rutasDirectas = us,
                                 rutasConTransbordo = take 5 rtsAct \<rparr>" by simp
    with assms(2) have us: "us \<noteq> []" by simp
    with p(13) have "rts = []" by simp
    with p(14) have "rtsAct = []" by simp
    obtain m' where m': "paradaALineas_de Map.empty
        ((if new_Set (filter truthy (map linea los)) \<noteq> [] then fO' else [])
         @ (if new_Set (filter truthy (map linea lds)) \<noteq> [] then fD' else [])) = Some m'"
      using paradaALineas_de_total by blast
    show ?thesis
      using p(1-9) p(11,12) m' us pl \<open>rtsAct = []\<close>
      by simp
  qed
  done

lemma mapM_mem:
  assumes "mapM f xs = Some ys"
  shows "y \<in> set ys \<longleftrightarrow> (\<exists>x \<in> set xs. f x = Some y)"
proof -
  from assms have a: "list_all2 (\<lambda>x y. f x = Some y) xs ys" by (simp add: mapM_Some_iff)
  show ?thesis
  proof
    assume "y \<in> set ys"
    then obtain i where "i < length ys" "ys ! i = y" by (auto simp: in_set_conv_nth)
    with a have "f (xs ! i) = Some y" "i < length xs" by (auto simp: list_all2_conv_all_nth)
    then show "\<exists>x \<in> set xs. f x = Some y" by (metis nth_mem)
  next
    assume "\<exists>x \<in> set xs. f x = Some y"
    then obtain i where "i < length xs" "f (xs ! i) = Some y" by (auto simp: in_set_conv_nth)
    with a have "ys ! i = y" "i < length ys" by (auto simp: list_all2_conv_all_nth)
    then show "y \<in> set ys" by (metis nth_mem)
  qed
qed

lemma concatM_mem:
  assumes "concatM f xs = Some ys"
  shows "y \<in> set ys \<longleftrightarrow> (\<exists>x \<in> set xs. \<exists>l. f x = Some l \<and> y \<in> set l)"
proof -
  from assms obtain yss where a: "mapM f xs = Some yss" and b: "ys = concat yss"
    by (auto simp: concatM_def)
  have "y \<in> set (concat yss) \<longleftrightarrow> (\<exists>l \<in> set yss. y \<in> set l)" by auto
  also have "\<dots> \<longleftrightarrow> (\<exists>x \<in> set xs. \<exists>l. f x = Some l \<and> y \<in> set l)"
    using mapM_mem [OF a] by blast
  finally show ?thesis unfolding b .
qed








lemma strict_eq_imp_eq: "strict_eq a b \<Longrightarrow> a = b"
  by (cases a; cases b) auto


lemma directa_de_Some:
  assumes "directa_de oi di es lo ld = Some l"
  shows "(l = [] \<and> \<not> (strict_eq (linea lo) (linea ld) \<and> strict_eq (sentido lo) (sentido ld)
                         \<and> js_le (puntoKm lo) (puntoKm ld)))
       \<or> (strict_eq (linea lo) (linea ld) \<and> strict_eq (sentido lo) (sentido ld)
            \<and> js_le (puntoKm lo) (puntoKm ld)
            \<and> (\<exists>c. l = [c] \<and> d_linea c = linea lo \<and> d_sentido c = sentidoLabel (sentido lo)
                    \<and> distanciaKm c = toFixed2 (js_sub (puntoKm ld) (puntoKm lo))))"
  using assms by (auto simp: directa_de_def bind_eq_Some_conv split: if_splits)


lemma rutasDirectas_de_mem:
  assumes "rutasDirectas_de oi di es los lds = Some cands" "c \<in> set cands"
  shows "\<exists>lo \<in> set los. \<exists>ld \<in> set lds.
           strict_eq (linea lo) (linea ld) \<and> strict_eq (sentido lo) (sentido ld)
           \<and> js_le (puntoKm lo) (puntoKm ld)
           \<and> d_linea c = linea lo \<and> d_sentido c = sentidoLabel (sentido lo)
           \<and> distanciaKm c = toFixed2 (js_sub (puntoKm ld) (puntoKm lo))"
proof -
  from assms obtain lo l where lo: "lo \<in> set los"
      "concatM (directa_de oi di es lo) lds = Some l" "c \<in> set l"
    unfolding rutasDirectas_de_def by (auto simp: concatM_mem)
  then obtain ld l' where ld: "ld \<in> set lds" "directa_de oi di es lo ld = Some l'" "c \<in> set l'"
    by (auto simp: concatM_mem)
  from directa_de_Some [OF ld(2)] ld(3) lo(1) ld(1) show ?thesis by fastforce
qed


lemma rutasDirectasUnicas_de_mem:
  assumes "rutasDirectasUnicas_de act a = Some us"
  shows "r \<in> set us \<longleftrightarrow> (\<exists>i < length a. a ! i = r \<and> unica_test act a (i, r) = Some True)"
proof -
  from assms obtain ivs where ivs: "filterM (unica_test act a) (zip [0..<length a] a) = Some ivs"
      and us: "us = map snd ivs"
    by (auto simp: rutasDirectasUnicas_de_def)
  from filterM_Some [OF ivs] us
  have "set us = snd ` {iv \<in> set (zip [0..<length a] a). unica_test act a iv = Some True}"
    by auto
  also have "set (zip [0..<length a] a) = {(i, a ! i) | i. i < length a}"
  proof -
    have "\<exists>k. i = [0..<length a] ! k \<and> a ! i = a ! k \<and> k < length a" if "i < length a" for i
      using that by (intro exI [of _ i]) simp
    then show ?thesis by (auto simp: set_zip)
  qed
  finally show ?thesis by (auto simp: image_iff)
qed

lemma lineasActivas_de_mem:
  assumes "lineasActivas_de tod = Some act"
  shows "u \<in> set act \<longleftrightarrow>
           truthy u \<and> (\<exists>r \<in> set tod. optchain call_toUpperCase (ayto_etiqLinea r) = Some u)"
proof -
  from assms obtain us where
    us: "mapM (\<lambda>r. optchain call_toUpperCase (ayto_etiqLinea r)) tod = Some us"
    and act: "act = filter truthy us"
    by (auto simp: lineasActivas_de_def bind_eq_Some_conv)
  show ?thesis unfolding act using mapM_mem [OF us, of u] by auto
qed

lemma toUpperCase_truthy:
  assumes "optchain call_toUpperCase v = Some u" "truthy u"
  shows "\<exists>l. v = JStr l \<and> u = JStr (toUpperCase l)"
  using assms by (cases v) (auto simp: optchain_def call_toUpperCase_def nullish_def split: if_splits)

lemma unica_test_True:
  "unica_test act a (i, v) = Some True \<longleftrightarrow>
     findIndex (misma_ruta v) a = int i
     \<and> (\<exists>u. optchain call_toUpperCase (d_linea v) = Some u \<and> u \<in> set act)"
  by (auto simp: unica_test_def bind_eq_Some_conv)



section \<open>Evaluation on examples\<close>

text \<open>Facts that let the simplifier compute with fractions of numerals.\<close>

lemma quotient_of_numeral_div:
  "quotient_of (numeral a / numeral b) = Rat.normalize (numeral a, numeral b)"
  by (metis Fract_of_int_quotient of_int_numeral quotient_of_Fract)

lemma quotient_of_one_div: "quotient_of (1 / numeral b) = (1, numeral b)"
  using quotient_of_Fract [of 1 "numeral b"] by (simp add: Fract_of_int_quotient Rat.normalize_def)

lemma gcd_numeral_step:
  "gcd (numeral a :: int) (numeral b) = gcd (numeral b) (numeral a mod numeral b)"
  "gcd (numeral a :: int) 0 = numeral a"
  "gcd (numeral a :: int) 1 = 1"
    apply (rule gcd_red_int)
   apply simp
  apply simp
  done

lemma floor_numeral_div: "\<lfloor>numeral a / numeral b :: rat\<rfloor> = numeral a div numeral b"
  by (metis floor_divide_of_int_eq of_int_numeral)

lemmas num_eval = to_double_def to_double_frac_def round_double_def nearest_even_def pow2_def
  bit_length.simps quotient_of_numeral_div quotient_of_one_div rat_uminus_code Rat.normalize_def
  gcd_numeral_step floor_numeral_div scale10_def Let_def

lemmas str_eval = numberToString_def posToString_def shortest_from.simps candidate_def digits_at_def
  decimal_exponent_def natToDigits.simps stripZeros.simps

lemmas js_eval = parseFloat_def parseInt_def ToString_def parseFloat_str_def parseInt_str_def take_sign_def
  is_ws_def is_digit_def is_hex_digit_def digits_val_def hex_val_def exponent_of_def
  toUpperCase_def upper_char_def nullish_def coalesce_def call_toString_def
  call_toUpperCase_def optchain_def luceneEscape_def toFixed2_def num_eval

lemmas plan_eval = seqToEntry_def sentidoLabel_def lineasActivas_de_def estOrigen_test_def directa_de_def
  rutasDirectas_de_def misma_ruta_def unica_test_def rutasDirectasUnicas_de_def linea_de_def
  sirve_origen_def seqOrigen_test_def transbordo_de_def transbordos_en_def rutasTransbordo_de_def
  transbordo_activo_def planificarRuta_def concatM_def set_add_def new_Set_def

lemma ejemplo_directa: "llamada_directa = Some plan_directo"
  by (simp add: js_eval plan_eval)

lemma ejemplo_transbordo: "llamada_transbordo = Some plan_transbordo"
  by (simp add: js_eval plan_eval)

text \<open>
  The rounding of the doubles shows in the distance: the double that \<open>"1.005"\<close> reads as
  lies below \<open>1.005\<close>, so its distance from \<open>0\<close> is \<open>1\<close> and not \<open>1.01\<close>; the difference of
  \<open>0.125\<close> and \<open>1e-20\<close> is the double \<open>0.125\<close>, a tie that \<open>toFixed\<close> rounds up.
\<close>

lemma to_double_ejemplos:
  "to_double (1 / 10) = Fin (3602879701896397 / 36028797018963968)"
  "to_double 9007199254740993 = Fin 9007199254740992"
  "to_double (10 ^ 23) = Fin 99999999999999991611392"
  by (simp_all add: num_eval)

lemma numberToString_ejemplos:
  "numberToString (Fin (3602879701896397 / 36028797018963968)) = ''0.1''"
  "numberToString (Fin (- (7 / 2))) = ''-3.5''"
  by (simp_all add: str_eval num_eval)

lemma ejemplo_redondeo:
  "toFixed2 (js_sub (parseFloat (JStr ''1.005'')) (parseFloat (JStr ''0''))) = Fin 1"
  "toFixed2 (js_sub (parseFloat (JStr ''0.125'')) (parseFloat (JStr ''1e-20'')))
     = parseFloat (JStr ''0.13'')"
  "parseFloat (JStr ''1.00000000000000000001'') = Fin 1"
  by (simp_all add: js_eval)

section \<open>Direct routes\<close>



text \<open>
  C2. The search for transfers runs only when \<open>rutasDirectasUnicas\<close> is empty: whenever the
  returned \<open>rutasDirectas\<close> is not empty, the returned \<open>rutasConTransbordo\<close> is empty, and the
  plan is the same whatever the feed answers about the stops of the lines, that is,
  whatever transfers there are.
\<close>

theorem directas_excluyen_transbordos:
  assumes "planificarRuta oi di rO rD fO fD es tod = Some plan"
    and "rutasDirectas plan \<noteq> []"
  shows "rutasConTransbordo plan = []
       \<and> planificarRuta oi di rO rD fO' fD' es tod = Some plan"
proof -
  from assms(1) obtain act rts where
    t: "if rutasDirectas plan = [] then True else rts = []"
    and r: "rutasConTransbordo plan = take 5 (filter (\<lambda>r. transbordo_activo act r = Some True) rts)"
    by (rule planificarRuta_SomeE) (auto split: if_splits)
  from t assms(2) have "rts = []" by simp
  with r planificarRuta_sin_transbordos [OF assms] show ?thesis by simp
qed

theorem directas_excluyen_transbordos_witness:
  "llamada_directa = Some plan_directo
   \<and> rutasDirectas plan_directo \<noteq> []
   \<and> rutasConTransbordo plan_directo = []
   \<and> planificarRuta (JStr ''539'') (JStr ''1234'')
       [registro ''15'' ''1'' ''539'' ''Origen'' ''1.25'', registro ''7'' ''1'' ''539'' ''Origen'' ''0.5'']
       [registro ''15'' ''1'' ''1234'' ''Destino'' ''4.75'', registro ''12'' ''1'' ''1234'' ''Destino'' ''9.0'']
       [] [] [] [activa ''15'', activa ''7'', activa ''12'']
     = Some plan_directo"
proof -
  have n: "rutasDirectas plan_directo \<noteq> []" by simp
  from directas_excluyen_transbordos [OF ejemplo_directa n, of "[]" "[]"] ejemplo_directa n
  show ?thesis by simp
qed



text \<open>
  C4. Every route of the returned \<open>rutasDirectas\<close> has a string as line whose upper-cased
  form is in \<open>lineasActivas\<close>, the set built from the whole snapshot of estimates. So when
  no pair of entries with the same line and direction and positions in order has an active
  line, \<open>rutasDirectas\<close> is empty.
\<close>

theorem directas_solo_lineas_activas:
  assumes "planificarRuta oi di rO rD fO fD es tod = Some plan"
  shows "\<exists>act los lds.
           lineasActivas_de tod = Some act
         \<and> mapM seqToEntry rO = Some los \<and> mapM seqToEntry rD = Some lds
         \<and> (\<forall>r \<in> set (rutasDirectas plan). \<exists>l. d_linea r = JStr l \<and> JStr (toUpperCase l) \<in> set act)
         \<and> ((\<forall>lo \<in> set los. \<forall>ld \<in> set lds.
                strict_eq (linea lo) (linea ld) \<and> strict_eq (sentido lo) (sentido ld)
                \<and> js_le (puntoKm lo) (puntoKm ld)
                \<longrightarrow> (\<forall>l. linea lo = JStr l \<longrightarrow> JStr (toUpperCase l) \<notin> set act))
             \<longrightarrow> rutasDirectas plan = [])"
proof -
  from assms obtain los lds act cands where
    a: "mapM seqToEntry rO = Some los" "mapM seqToEntry rD = Some lds"
       "lineasActivas_de tod = Some act"
       "rutasDirectas_de oi di es los lds = Some cands"
       "rutasDirectasUnicas_de act cands = Some (rutasDirectas plan)"
    by (rule planificarRuta_SomeE)
  have act: "\<exists>l. d_linea r = JStr l \<and> JStr (toUpperCase l) \<in> set act"
    and cand: "r \<in> set cands" if "r \<in> set (rutasDirectas plan)" for r
  proof -
    from that obtain i u where i: "i < length cands" "cands ! i = r"
        and u: "optchain call_toUpperCase (d_linea r) = Some u" "u \<in> set act"
      using rutasDirectasUnicas_de_mem [OF a(5), of r] by (auto simp: unica_test_True)
    from u(2) have "truthy u" using lineasActivas_de_mem [OF a(3)] by simp
    from toUpperCase_truthy [OF u(1) this] u(2)
    show "\<exists>l. d_linea r = JStr l \<and> JStr (toUpperCase l) \<in> set act" by auto
    from i show "r \<in> set cands" by auto
  qed
  have "rutasDirectas plan = []"
    if h: "\<forall>lo \<in> set los. \<forall>ld \<in> set lds.
             strict_eq (linea lo) (linea ld) \<and> strict_eq (sentido lo) (sentido ld)
             \<and> js_le (puntoKm lo) (puntoKm ld)
             \<longrightarrow> (\<forall>l. linea lo = JStr l \<longrightarrow> JStr (toUpperCase l) \<notin> set act)"
  proof (rule ccontr)
    assume "rutasDirectas plan \<noteq> []"
    then obtain r where r: "r \<in> set (rutasDirectas plan)" by (cases "rutasDirectas plan") auto
    from rutasDirectas_de_mem [OF a(4) cand [OF r]] obtain lo ld where
      p: "lo \<in> set los" "ld \<in> set lds" "strict_eq (linea lo) (linea ld)"
         "strict_eq (sentido lo) (sentido ld)" "js_le (puntoKm lo) (puntoKm ld)" "d_linea r = linea lo"
      by blast
    from act [OF r] p(6) obtain l where "linea lo = JStr l" "JStr (toUpperCase l) \<in> set act" by auto
    with h p show False by blast
  qed
  with a act show ?thesis by blast
qed

text \<open>In the witness line 15, the only line of both stops, has no estimate.\<close>

theorem directas_solo_lineas_activas_witness:
  "planificarRuta (JStr ''539'') (JStr ''1234'')
     [registro ''15'' ''1'' ''539'' ''Origen'' ''1.25'']
     [registro ''15'' ''1'' ''1234'' ''Destino'' ''4.75'']
     [] [] [] [activa ''7'']
   = Some \<lparr> origen = JStr ''539'', destino_plan = JStr ''1234'',
            rutasDirectas = [], rutasConTransbordo = [] \<rparr>
   \<and> llamada_directa = Some plan_directo
   \<and> (\<exists>act. lineasActivas_de [activa ''15'', activa ''7'', activa ''12''] = Some act
         \<and> (\<exists>l. d_linea directa_15 = JStr l \<and> JStr (toUpperCase l) \<in> set act))"
proof -
  have "planificarRuta (JStr ''539'') (JStr ''1234'')
     [registro ''15'' ''1'' ''539'' ''Origen'' ''1.25'']
     [registro ''15'' ''1'' ''1234'' ''Destino'' ''4.75'']
     [] [] [] [activa ''7'']
   = Some \<lparr> origen = JStr ''539'', destino_plan = JStr ''1234'',
            rutasDirectas = [], rutasConTransbordo = [] \<rparr>"
    by (simp add: js_eval plan_eval)
  moreover from directas_solo_lineas_activas [OF ejemplo_directa]
  have "\<exists>act. lineasActivas_de [activa ''15'', activa ''7'', activa ''12''] = Some act
         \<and> (\<exists>l. d_linea directa_15 = JStr l \<and> JStr (toUpperCase l) \<in> set act)"
    by auto
  ultimately show ?thesis using ejemplo_directa by blast
qed

section \<open>The distance of a direct route\<close>

lemma nearest_even_nonneg: "0 \<le> n \<Longrightarrow> 0 < d \<Longrightarrow> 0 \<le> nearest_even n d"
  by (simp add: nearest_even_def Let_def pos_imp_zdiv_nonneg_iff)

lemma pow2_pos: "0 < pow2 k"
  by (simp add: pow2_def)

lemma round_double_nonneg:
  assumes "0 \<le> a" "0 < b"
  shows "0 \<le> round_double a b"
proof -
  have m: "0 \<le> a * 2 ^ j" "0 < b * 2 ^ j" for j :: nat
    using assms by simp_all
  show ?thesis
    unfolding round_double_def Let_def
    by (intro mult_nonneg_nonneg)
       (simp_all add: nearest_even_nonneg m assms less_imp_le [OF pow2_pos])
qed

lemma to_double_nonneg:
  assumes "0 \<le> x"
  shows "to_double x = PosInf \<or> (\<exists>y. 0 \<le> y \<and> to_double x = Fin y)"
proof -
  obtain p q where pq: "quotient_of x = (p, q)" by force
  then have q: "0 < q" and x: "x = of_int p / of_int q"
    by (simp_all add: quotient_of_denom_pos quotient_of_div)
  with assms have p: "0 \<le> p" by (simp add: zero_le_divide_iff)
  from p q have "0 \<le> round_double \<bar>p\<bar> q" by (simp add: round_double_nonneg)
  with p show ?thesis by (auto simp: to_double_def to_double_frac_def pq)
qed

lemma toFixed2_Fin_nonneg: "0 \<le> r \<Longrightarrow> js_le (Fin 0) (toFixed2 (Fin r))"
proof -
  assume r: "0 \<le> r"
  then have "0 \<le> of_int \<lfloor>r * 100 + 1 / 2\<rfloor> / (100 :: rat)" by simp
  from to_double_nonneg [OF this] r show ?thesis by (auto simp: toFixed2_def)
qed

lemma distancia_no_negativa:
  assumes "js_le x y" "\<not> (x = y \<and> (x = PosInf \<or> x = NegInf))"
  shows "js_le (Fin 0) (toFixed2 (js_sub y x))"
proof (cases x)
  case (Fin a)
  show ?thesis
  proof (cases y)
    case (Fin b)
    with \<open>x = Fin a\<close> assms(1) have "0 \<le> b - a" by simp
    from to_double_nonneg [OF this] show ?thesis
    proof
      assume "to_double (b - a) = PosInf"
      with \<open>x = Fin a\<close> Fin show ?thesis by (simp add: toFixed2_def)
    next
      assume "\<exists>d. 0 \<le> d \<and> to_double (b - a) = Fin d"
      then obtain d where "0 \<le> d" "to_double (b - a) = Fin d" by blast
      with \<open>x = Fin a\<close> Fin toFixed2_Fin_nonneg [of d] show ?thesis by simp
    qed
  qed (use Fin assms in \<open>auto simp: toFixed2_def\<close>)
qed (use assms in \<open>cases y; auto simp: toFixed2_def\<close>)+

lemma distancia_infinitos:
  "x = PosInf \<or> x = NegInf \<Longrightarrow> toFixed2 (js_sub x x) = NaN"
  by (auto simp: toFixed2_def)

lemma distancia_un_infinito:
  assumes "js_le x y" "x \<noteq> y" "x = NegInf \<or> y = PosInf"
  shows "toFixed2 (js_sub y x) = PosInf"
  using assms by (cases x; cases y) (auto simp: toFixed2_def)

lemma toFixed2_redondea:
  assumes "0 \<le> r" "r < 10 ^ 21"
  shows "\<exists>n::int. toFixed2 (Fin r) = to_double (of_int n / 100) \<and> \<bar>of_int n / 100 - r\<bar> \<le> 1 / 200"
proof -
  let ?n = "\<lfloor>r * 100 + 1 / 2\<rfloor>"
  from assms have "toFixed2 (Fin r) = to_double (of_int ?n / 100)" by (simp add: toFixed2_def)
  moreover define q :: rat where "q = of_int ?n"
  have "q \<le> r * 100 + 1 / 2" "r * 100 + 1 / 2 < q + 1"
    unfolding q_def by linarith+
  then have "\<bar>q / 100 - r\<bar> \<le> 1 / 200" by linarith
  ultimately show ?thesis unfolding q_def by blast
qed

text \<open>
  C8 (amended). Every route \<open>r\<close> of the returned \<open>rutasDirectas\<close> comes from a pair of
  entries \<open>(lo, ld)\<close> with the line and the direction of \<open>r\<close> that passes the guard
  \<open>lo.puntoKm <= ld.puntoKm\<close>, and its \<open>distanciaKm\<close> is
  \<open>parseFloat((ld.puntoKm - lo.puntoKm).toFixed(2))\<close>. When both positions are the same
  infinity the distance is \<open>NaN\<close>. Otherwise it is at least \<open>0\<close>, and it is \<open>Infinity\<close> when
  the origin is at \<open>-Infinity\<close> or the destination at \<open>Infinity\<close>. When both positions are
  finite and the double \<open>d\<close> that their subtraction gives is below \<open>10 ^ 21\<close>, the distance
  is the double nearest to \<open>n / 100\<close> for an integer \<open>n\<close> with \<open>n / 100\<close> within half a
  hundredth of \<open>d\<close>.
\<close>

theorem distancia_directa:
  assumes "planificarRuta oi di rO rD fO fD es tod = Some plan"
    and "r \<in> set (rutasDirectas plan)"
  shows "\<exists>los lds. mapM seqToEntry rO = Some los \<and> mapM seqToEntry rD = Some lds
           \<and> (\<exists>lo \<in> set los. \<exists>ld \<in> set lds.
                 d_linea r = linea lo \<and> d_sentido r = sentidoLabel (sentido lo)
               \<and> strict_eq (linea lo) (linea ld) \<and> strict_eq (sentido lo) (sentido ld)
               \<and> js_le (puntoKm lo) (puntoKm ld)
               \<and> distanciaKm r = toFixed2 (js_sub (puntoKm ld) (puntoKm lo))
               \<and> (if puntoKm lo = puntoKm ld \<and> (puntoKm lo = PosInf \<or> puntoKm lo = NegInf)
                   then distanciaKm r = NaN
                   else js_le (Fin 0) (distanciaKm r)
                      \<and> (puntoKm lo = NegInf \<or> puntoKm ld = PosInf \<longrightarrow> distanciaKm r = PosInf))
               \<and> (\<forall>a b d. puntoKm lo = Fin a \<and> puntoKm ld = Fin b
                         \<and> to_double (b - a) = Fin d \<and> d < 10 ^ 21
                     \<longrightarrow> (\<exists>n::int. distanciaKm r = to_double (of_int n / 100)
                                  \<and> \<bar>of_int n / 100 - d\<bar> \<le> 1 / 200)))"
proof -
  from assms(1) obtain los lds act cands where
    a: "mapM seqToEntry rO = Some los" "mapM seqToEntry rD = Some lds"
       "rutasDirectas_de oi di es los lds = Some cands"
       "rutasDirectasUnicas_de act cands = Some (rutasDirectas plan)"
    by (rule planificarRuta_SomeE)
  from assms(2) have "r \<in> set cands"
    using rutasDirectasUnicas_de_mem [OF a(4), of r] by auto
  from rutasDirectas_de_mem [OF a(3) this] obtain lo ld where
    p: "lo \<in> set los" "ld \<in> set lds" "strict_eq (linea lo) (linea ld)"
       "strict_eq (sentido lo) (sentido ld)" "js_le (puntoKm lo) (puntoKm ld)"
       "d_linea r = linea lo" "d_sentido r = sentidoLabel (sentido lo)"
       "distanciaKm r = toFixed2 (js_sub (puntoKm ld) (puntoKm lo))"
    by blast
  have s: "if puntoKm lo = puntoKm ld \<and> (puntoKm lo = PosInf \<or> puntoKm lo = NegInf)
           then distanciaKm r = NaN
           else js_le (Fin 0) (distanciaKm r)
              \<and> (puntoKm lo = NegInf \<or> puntoKm ld = PosInf \<longrightarrow> distanciaKm r = PosInf)"
  proof (cases "puntoKm lo = puntoKm ld \<and> (puntoKm lo = PosInf \<or> puntoKm lo = NegInf)")
    case True
    then have "toFixed2 (js_sub (puntoKm ld) (puntoKm lo)) = NaN"
      using distancia_infinitos [of "puntoKm lo"] by auto
    with p(8) have "distanciaKm r = NaN" by simp
    then show ?thesis by (subst if_P [OF True])
  next
    case False
    with distancia_no_negativa [OF p(5)] p(8) have n: "js_le (Fin 0) (distanciaKm r)" by auto
    have "distanciaKm r = PosInf" if i: "puntoKm lo = NegInf \<or> puntoKm ld = PosInf"
    proof -
      from False i have "puntoKm lo \<noteq> puntoKm ld" by auto
      from distancia_un_infinito [OF p(5) this i] p(8) show ?thesis by simp
    qed
    with n have "js_le (Fin 0) (distanciaKm r)
                 \<and> (puntoKm lo = NegInf \<or> puntoKm ld = PosInf \<longrightarrow> distanciaKm r = PosInf)"
      by blast
    then show ?thesis by (subst if_not_P [OF False])
  qed
  have f: "\<exists>n::int. distanciaKm r = to_double (of_int n / 100) \<and> \<bar>of_int n / 100 - d\<bar> \<le> 1 / 200"
    if h: "puntoKm lo = Fin a \<and> puntoKm ld = Fin b \<and> to_double (b - a) = Fin d \<and> d < 10 ^ 21"
    for a b d
  proof -
    from h p(5) have "0 \<le> b - a" by auto
    from to_double_nonneg [OF this] h have d: "0 \<le> d" "d < 10 ^ 21" by auto
    from h p(8) have "distanciaKm r = toFixed2 (Fin d)" by simp
    with toFixed2_redondea [OF d] show ?thesis by simp
  qed
  from a(1,2) p(1-7) p(8) s f show ?thesis by blast
qed

theorem distancia_directa_witness:
  "llamada_directa = Some plan_directo
   \<and> directa_15 \<in> set (rutasDirectas plan_directo)
   \<and> distanciaKm directa_15 = Fin (7 / 2)
   \<and> js_le (Fin 0) (distanciaKm directa_15)"
proof -
  have m: "directa_15 \<in> set (rutasDirectas plan_directo)" by simp
  from distancia_directa [OF ejemplo_directa m]
  have "js_le (Fin 0) (distanciaKm directa_15)"
    by (auto split: if_splits)
  with ejemplo_directa m show ?thesis by simp
qed

text \<open>
  The claim as stated fails: with the position \<open>"Infinity"\<close> at both stops the guard holds,
  and the distance of the route is \<open>NaN\<close>, which is not at least \<open>0\<close>.
\<close>

theorem distancia_no_siempre_positiva:
  "planificarRuta (JStr ''539'') (JStr ''1234'')
     [registro ''15'' ''1'' ''539'' ''Origen'' ''Infinity'']
     [registro ''15'' ''1'' ''1234'' ''Destino'' ''Infinity'']
     [] [] [] [activa ''15'']
   = Some \<lparr> origen = JStr ''539'', destino_plan = JStr ''1234'',
            rutasDirectas =
              [\<lparr> d_linea = JStr ''15'', d_sentido = ''ida'',
                 d_paradaOrigen = \<lparr> numero = JStr ''539'', nombre = JStr ''Origen'' \<rparr>,
                 d_paradaDestino = \<lparr> numero = JStr ''1234'', nombre = JStr ''Destino'' \<rparr>,
                 distanciaKm = NaN, proximoBus = None \<rparr>],
            rutasConTransbordo = [] \<rparr>
   \<and> \<not> js_le (Fin 0) NaN"
  by (simp add: js_eval plan_eval)

section \<open>Routes with a transfer\<close>

lemma transbordo_de_mem:
  assumes "transbordo_de oi di seqs los p li ld = Some l" "t \<in> set l"
  shows "numero (t1_paradaTransbordo (tramo1 t)) = p \<and> t2_linea (tramo2 t) = linea li
       \<and> (\<exists>so. findM (seqOrigen_test los p) seqs = Some (Some so) \<and> t1_linea (tramo1 t) = linea_de so)"
proof -
  from assms obtain r where f: "findM (seqOrigen_test los p) seqs = Some r"
    and l: "(case r of
               None \<Rightarrow> Some []
             | Some so \<Rightarrow>
                 let lineaOrigen = linea_de so in
                 Some [\<lparr> tramo1 = \<lparr> t1_linea = lineaOrigen,
                                    t1_paradaOrigen =
                                      \<lparr> numero = oi,
                                        nombre = coalesce
                                          (case find (\<lambda>lo. strict_eq (linea lo) lineaOrigen) los of
                                             None \<Rightarrow> JUndefined | Some lo \<Rightarrow> nombreParada lo)
                                          oi \<rparr>,
                                    t1_paradaTransbordo = \<lparr> numero = p, nombre = ayto_NombreParada so \<rparr> \<rparr>,
                         tramo2 = \<lparr> t2_linea = linea li,
                                    t2_paradaTransbordo = \<lparr> numero = p, nombre = nombreParada li \<rparr>,
                                    t2_paradaDestino = \<lparr> numero = di, nombre = nombreParada ld \<rparr> \<rparr> \<rparr>]) = Some l"
    by (auto simp: transbordo_de_def bind_eq_Some_conv split: if_splits)
  show ?thesis
  proof (cases r)
    case None
    with l assms(2) show ?thesis by simp
  next
    case (Some so)
    with l assms(2) f show ?thesis by (auto simp: Let_def)
  qed
qed

lemma transbordos_en_mem:
  assumes "transbordos_en oi di seqs m los lds p = Some l" "t \<in> set l"
  shows "numero (t1_paradaTransbordo (tramo1 t)) = p
       \<and> (\<exists>so. findM (seqOrigen_test los p) seqs = Some (Some so) \<and> t1_linea (tramo1 t) = linea_de so)"
proof -
  from assms obtain lis where
    c: "concatM (\<lambda>li. concatM (transbordo_de oi di seqs los p li) lds) lis = Some l"
    by (auto simp: transbordos_en_def bind_eq_Some_conv Let_def split: if_splits)
  from assms(2) obtain li l' where "concatM (transbordo_de oi di seqs los p li) lds = Some l'" "t \<in> set l'"
    using concatM_mem [OF c, of t] by blast
  then obtain ld l'' where "transbordo_de oi di seqs los p li ld = Some l''" "t \<in> set l''"
    using concatM_mem [of "transbordo_de oi di seqs los p li" lds l' t] by blast
  from transbordo_de_mem [OF this] show ?thesis by simp
qed

lemma rutasTransbordo_de_mem:
  assumes "rutasTransbordo_de oi di seqs m los lds = Some rts" "t \<in> set rts"
  shows "\<exists>so. findM (seqOrigen_test los (numero (t1_paradaTransbordo (tramo1 t)))) seqs = Some (Some so)
             \<and> t1_linea (tramo1 t) = linea_de so"
proof -
  from assms(1) obtain ps where
    c: "concatM (transbordos_en oi di seqs m los lds) ps = Some rts"
    by (auto simp: rutasTransbordo_de_def bind_eq_Some_conv)
  from assms(2) obtain p l where "transbordos_en oi di seqs m los lds p = Some l" "t \<in> set l"
    using concatM_mem [OF c, of t] by blast
  from transbordos_en_mem [OF this] show ?thesis by auto
qed

lemma transbordo_activo_True:
  "transbordo_activo act t = Some True \<longleftrightarrow>
     (\<exists>u1 u2. optchain call_toUpperCase (t1_linea (tramo1 t)) = Some u1 \<and> u1 \<in> set act
             \<and> optchain call_toUpperCase (t2_linea (tramo2 t)) = Some u2 \<and> u2 \<in> set act)"
  by (auto simp: transbordo_activo_def bind_eq_Some_conv split: if_splits)

text \<open>
  C9. The returned \<open>rutasConTransbordo\<close> has at most 5 routes; it is the first five, in
  their order, of the routes of \<open>rutasTransbordo\<close> whose two lines are active, where
  \<open>rutasTransbordo\<close> is the array that the search fills in its order of discovery (and is
  empty when there is a direct route); both lines of each returned route are strings whose
  upper-cased form is in \<open>lineasActivas\<close>.
\<close>

theorem transbordos_hasta_cinco_activos_en_orden:
  assumes "planificarRuta oi di rO rD fO fD es tod = Some plan"
  shows "length (rutasConTransbordo plan) \<le> 5
       \<and> (\<exists>los lds act m rts.
             mapM seqToEntry rO = Some los \<and> mapM seqToEntry rD = Some lds
           \<and> lineasActivas_de tod = Some act
           \<and> paradaALineas_de Map.empty
                ((if new_Set (filter truthy (map linea los)) \<noteq> [] then fO else [])
                 @ (if new_Set (filter truthy (map linea lds)) \<noteq> [] then fD else [])) = Some m
           \<and> (if rutasDirectas plan = []
                then rutasTransbordo_de oi di
                       (if new_Set (filter truthy (map linea los)) \<noteq> [] then fO else []) m los lds
                     = Some rts
                else rts = [])
           \<and> rutasConTransbordo plan = take 5 (filter (\<lambda>t. transbordo_activo act t = Some True) rts)
           \<and> (\<forall>t \<in> set (rutasConTransbordo plan).
                 \<exists>l1 l2. t1_linea (tramo1 t) = JStr l1 \<and> JStr (toUpperCase l1) \<in> set act
                        \<and> t2_linea (tramo2 t) = JStr l2 \<and> JStr (toUpperCase l2) \<in> set act))"
proof -
  from assms obtain los lds act m cands rts where
    a: "mapM seqToEntry rO = Some los" "mapM seqToEntry rD = Some lds"
       "lineasActivas_de tod = Some act"
       "if rutasDirectas plan = []
        then rutasTransbordo_de oi di (if new_Set (filter truthy (map linea los)) \<noteq> [] then fO else []) m los lds
               = Some rts
        else rts = []"
       "rutasConTransbordo plan = take 5 (filter (\<lambda>r. transbordo_activo act r = Some True) rts)"
       "paradaALineas_de Map.empty
          ((if new_Set (filter truthy (map linea los)) \<noteq> [] then fO else [])
           @ (if new_Set (filter truthy (map linea lds)) \<noteq> [] then fD else [])) = Some m"
    by (rule planificarRuta_SomeE)
  from a(5) have len: "length (rutasConTransbordo plan) \<le> 5" by simp
  have act: "\<exists>l1 l2. t1_linea (tramo1 t) = JStr l1 \<and> JStr (toUpperCase l1) \<in> set act
                   \<and> t2_linea (tramo2 t) = JStr l2 \<and> JStr (toUpperCase l2) \<in> set act"
    if "t \<in> set (rutasConTransbordo plan)" for t
  proof -
    from that a(5) have "transbordo_activo act t = Some True"
      by (auto dest: in_set_takeD)
    then obtain u1 u2 where
      u: "optchain call_toUpperCase (t1_linea (tramo1 t)) = Some u1" "u1 \<in> set act"
         "optchain call_toUpperCase (t2_linea (tramo2 t)) = Some u2" "u2 \<in> set act"
      by (auto simp: transbordo_activo_True)
    from u(2,4) have "truthy u1" "truthy u2" using lineasActivas_de_mem [OF a(3)] by auto
    from toUpperCase_truthy [OF u(1) this(1)] toUpperCase_truthy [OF u(3) this(2)] u(2,4)
    show ?thesis by auto
  qed
  from len a act show ?thesis by blast
qed

theorem transbordos_hasta_cinco_activos_en_orden_witness:
  "llamada_transbordo = Some plan_transbordo
   \<and> length (rutasConTransbordo plan_transbordo) \<le> 5
   \<and> (\<exists>act. lineasActivas_de [activa ''7'', activa ''8'', activa ''12'', activa ''13''] = Some act
         \<and> (\<exists>l1 l2. t1_linea (tramo1 (transbordo_en_200 ''12'')) = JStr l1
                    \<and> JStr (toUpperCase l1) \<in> set act
                    \<and> t2_linea (tramo2 (transbordo_en_200 ''12'')) = JStr l2
                    \<and> JStr (toUpperCase l2) \<in> set act))"
proof -
  from transbordos_hasta_cinco_activos_en_orden [OF ejemplo_transbordo]
  have "length (rutasConTransbordo plan_transbordo) \<le> 5"
    and "\<exists>act. lineasActivas_de [activa ''7'', activa ''8'', activa ''12'', activa ''13''] = Some act
         \<and> (\<exists>l1 l2. t1_linea (tramo1 (transbordo_en_200 ''12'')) = JStr l1
                    \<and> JStr (toUpperCase l1) \<in> set act
                    \<and> t2_linea (tramo2 (transbordo_en_200 ''12'')) = JStr l2
                    \<and> JStr (toUpperCase l2) \<in> set act)"
    by auto
  with ejemplo_transbordo show ?thesis by blast
qed

text \<open>
  C10. Two routes of the returned \<open>rutasConTransbordo\<close> with the same transfer stop have the
  same line on the first leg: the line of the first record of \<open>seqs\<close> that \<open>seqs.find\<close>
  accepts for that stop, a record at the stop whose line serves the origin.
\<close>

theorem misma_parada_misma_linea_origen:
  assumes "planificarRuta oi di rO rD fO fD es tod = Some plan"
    and "t \<in> set (rutasConTransbordo plan)" "t' \<in> set (rutasConTransbordo plan)"
    and "numero (t1_paradaTransbordo (tramo1 t)) = numero (t1_paradaTransbordo (tramo1 t'))"
  shows "t1_linea (tramo1 t) = t1_linea (tramo1 t')
       \<and> (\<exists>los so. mapM seqToEntry rO = Some los
              \<and> findM (seqOrigen_test los (numero (t1_paradaTransbordo (tramo1 t)))) fO = Some (Some so)
              \<and> t1_linea (tramo1 t) = linea_de so)"
proof -
  from assms(1) obtain los lds act m cands rts where
    a: "mapM seqToEntry rO = Some los"
       "if rutasDirectas plan = []
        then rutasTransbordo_de oi di (if new_Set (filter truthy (map linea los)) \<noteq> [] then fO else []) m los lds
               = Some rts
        else rts = []"
       "rutasConTransbordo plan = take 5 (filter (\<lambda>r. transbordo_activo act r = Some True) rts)"
    by (rule planificarRuta_SomeE)
  define seqs where "seqs = (if new_Set (filter truthy (map linea los)) \<noteq> [] then fO else [])"
  have mem: "x \<in> set rts" if "x \<in> set (rutasConTransbordo plan)" for x
    using that a(3) by (auto dest: in_set_takeD)
  from mem [OF assms(2)] a(2) have r: "rutasTransbordo_de oi di seqs m los lds = Some rts"
    by (auto simp: seqs_def split: if_splits)
  have found: "\<exists>so. findM (seqOrigen_test los (numero (t1_paradaTransbordo (tramo1 x)))) seqs = Some (Some so)
                  \<and> t1_linea (tramo1 x) = linea_de so"
    if "x \<in> set (rutasConTransbordo plan)" for x
    using rutasTransbordo_de_mem [OF r mem [OF that]] .
  from found [OF assms(2)] have "seqs \<noteq> []" by auto
  then have s: "seqs = fO" by (auto simp: seqs_def split: if_splits)
  from found [OF assms(2)] found [OF assms(3)] assms(4) have "t1_linea (tramo1 t) = t1_linea (tramo1 t')"
    by auto
  with found [OF assms(2)] a(1) s show ?thesis by auto
qed

text \<open>In the witness both lines 7 and 8 of the origin stop at 200; the first record of
  \<open>seqs\<close> at that stop is of line 7, and both routes take it.\<close>

theorem misma_parada_misma_linea_origen_witness:
  "llamada_transbordo = Some plan_transbordo
   \<and> transbordo_en_200 ''12'' \<in> set (rutasConTransbordo plan_transbordo)
   \<and> transbordo_en_200 ''13'' \<in> set (rutasConTransbordo plan_transbordo)
   \<and> numero (t1_paradaTransbordo (tramo1 (transbordo_en_200 ''12'')))
       = numero (t1_paradaTransbordo (tramo1 (transbordo_en_200 ''13'')))
   \<and> t1_linea (tramo1 (transbordo_en_200 ''12'')) = t1_linea (tramo1 (transbordo_en_200 ''13''))"
proof -
  have m1: "transbordo_en_200 ''12'' \<in> set (rutasConTransbordo plan_transbordo)" by simp
  have m2: "transbordo_en_200 ''13'' \<in> set (rutasConTransbordo plan_transbordo)" by simp
  have n: "numero (t1_paradaTransbordo (tramo1 (transbordo_en_200 ''12'')))
         = numero (t1_paradaTransbordo (tramo1 (transbordo_en_200 ''13'')))" by simp
  from misma_parada_misma_linea_origen [OF ejemplo_transbordo m1 m2 n] ejemplo_transbordo m1 m2 n
  show ?thesis by blast
qed

section \<open>When planificarRuta returns\<close>

lemma mapM_total: "(\<And>x. x \<in> set xs \<Longrightarrow> \<exists>y. f x = Some y) \<Longrightarrow> \<exists>ys. mapM f xs = Some ys"
proof (induction xs)
  case Nil
  then show ?case by simp
next
  case (Cons x xs)
  from Cons.prems [of x] obtain y where "f x = Some y" by auto
  moreover from Cons.IH Cons.prems obtain ys where "mapM f xs = Some ys" by auto
  ultimately show ?case by simp
qed

lemma filterM_total: "(\<And>x. x \<in> set xs \<Longrightarrow> \<exists>b. p x = Some b) \<Longrightarrow> \<exists>ys. filterM p xs = Some ys"
proof (induction xs)
  case Nil
  then show ?case by simp
next
  case (Cons x xs)
  from Cons.prems [of x] obtain b where "p x = Some b" by auto
  moreover from Cons.IH Cons.prems obtain ys where "filterM p xs = Some ys" by auto
  ultimately show ?case by simp
qed

lemma concatM_total: "(\<And>x. x \<in> set xs \<Longrightarrow> \<exists>l. f x = Some l) \<Longrightarrow> \<exists>ys. concatM f xs = Some ys"
  using mapM_total [of xs f] by (auto simp: concatM_def)

lemma findM_total: "(\<And>x. x \<in> set xs \<Longrightarrow> \<exists>b. p x = Some b) \<Longrightarrow> \<exists>r. findM p xs = Some r"
proof (induction xs)
  case Nil
  then show ?case by simp
next
  case (Cons x xs)
  from Cons.prems [of x] obtain b where "p x = Some b" by auto
  moreover from Cons.IH Cons.prems obtain r where "findM p xs = Some r" by auto
  ultimately show ?case by simp
qed

lemma findM_Some_holds: "findM p xs = Some (Some x) \<Longrightarrow> p x = Some True"
  by (induction xs) (auto simp: bind_eq_Some_conv split: if_splits)

lemma set_new_Set: "set (new_Set xs) = set xs"
proof -
  have "set (foldl set_add acc xs) = set acc \<union> set xs" for acc
    by (induction xs arbitrary: acc) (auto simp: set_add_def)
  then show ?thesis by (simp add: new_Set_def)
qed

lemma paradasIntermedias_de_total: "\<exists>ps. paradasIntermedias_de los acc ss = Some ps"
proof (induction ss arbitrary: acc)
  case Nil
  then show ?case by simp
next
  case (Cons s ss)
  obtain n where "optchain call_toString (ayto_NParada s) = Some n"
    using optchain_toString_total by blast
  with Cons.IH show ?case by simp
qed

lemma seqToEntry_linea: "seqToEntry s = Some e \<Longrightarrow> linea e = linea_de s"
  by (auto simp: seqToEntry_def linea_de_def bind_eq_Some_conv)

lemma luceneEscape_etiqueta:
  assumes "truthy v" "optchain call_toUpperCase v \<noteq> None"
  shows "\<exists>q. luceneEscape v = Some q"
  using assms by (cases v) (auto simp: luceneEscape_def optchain_def call_toUpperCase_def nullish_def)

lemma call_toString_total: "\<not> nullish v \<Longrightarrow> \<exists>s. call_toString v = Some (JStr s)"
  by (simp add: call_toString_def)

lemma transbordo_de_lineas:
  assumes "transbordo_de oi di seqs los p li ld = Some l" "t \<in> set l"
  shows "(\<exists>lo \<in> set los. t1_linea (tramo1 t) = linea lo) \<and> t2_linea (tramo2 t) = linea ld"
proof -
  from transbordo_de_mem [OF assms] obtain so where
    so: "findM (seqOrigen_test los p) seqs = Some (Some so)" "t1_linea (tramo1 t) = linea_de so"
      and li: "t2_linea (tramo2 t) = linea li"
    by auto
  from findM_Some_holds [OF so(1)] have "sirve_origen los so"
    by (auto simp: seqOrigen_test_def bind_eq_Some_conv)
  then obtain lo where lo: "lo \<in> set los" "linea lo = linea_de so"
    by (auto simp: sirve_origen_def dest: strict_eq_imp_eq)
  from lo so(2) have "\<exists>lo \<in> set los. t1_linea (tramo1 t) = linea lo"
    by (intro bexI [of _ lo]) simp_all
  moreover from assms have "strict_eq (linea li) (linea ld)"
    by (auto simp: transbordo_de_def split: if_splits)
  then have "linea li = linea ld" by (rule strict_eq_imp_eq)
  ultimately show ?thesis using li by simp
qed

lemma rutasTransbordo_de_lineas:
  assumes "rutasTransbordo_de oi di seqs m los lds = Some rts" "t \<in> set rts"
  shows "(\<exists>lo \<in> set los. t1_linea (tramo1 t) = linea lo) \<and> (\<exists>ld \<in> set lds. t2_linea (tramo2 t) = linea ld)"
proof -
  from assms(1) obtain ps where
    c: "concatM (transbordos_en oi di seqs m los lds) ps = Some rts"
    by (auto simp: rutasTransbordo_de_def bind_eq_Some_conv)
  from assms(2) obtain p l where l: "transbordos_en oi di seqs m los lds p = Some l" "t \<in> set l"
    using concatM_mem [OF c, of t] by blast
  then obtain lis where
    c2: "concatM (\<lambda>li. concatM (transbordo_de oi di seqs los p li) lds) lis = Some l"
    by (auto simp: transbordos_en_def bind_eq_Some_conv Let_def split: if_splits)
  from l(2) obtain li l' where l': "concatM (transbordo_de oi di seqs los p li) lds = Some l'" "t \<in> set l'"
    using concatM_mem [OF c2, of t] by blast
  then obtain ld l'' where "ld \<in> set lds" "transbordo_de oi di seqs los p li ld = Some l''" "t \<in> set l''"
    using concatM_mem [of "transbordo_de oi di seqs los p li" lds l' t] by blast
  with transbordo_de_lineas [of oi di seqs los p li ld l'' t] show ?thesis by blast
qed


text \<open>
  \<open>planificarRuta\<close> returns a plan when the two stop ids are not \<open>undefined\<close> or \<open>null\<close> and
  every label of a line that it upper-cases is a string or missing: the labels of the
  records at the two stops, of the estimates at the origin and of the snapshot.
\<close>

lemma planificarRuta_devuelve:
  assumes ids: "\<not> nullish oi" "\<not> nullish di"
    and rO: "\<And>s. s \<in> set rO \<Longrightarrow> optchain call_toUpperCase (linea_de s) \<noteq> None"
    and rD: "\<And>s. s \<in> set rD \<Longrightarrow> optchain call_toUpperCase (linea_de s) \<noteq> None"
    and es: "\<And>e. e \<in> set es \<Longrightarrow> optchain call_toUpperCase (est_linea e) \<noteq> None"
    and tod: "\<And>r. r \<in> set tod \<Longrightarrow> optchain call_toUpperCase (ayto_etiqLinea r) \<noteq> None"
  shows "\<exists>plan. planificarRuta oi di rO rD fO fD es tod = Some plan"
proof -
  from ids obtain so sd where so: "call_toString oi = Some (JStr so)"
      and sd: "call_toString di = Some (JStr sd)"
    using call_toString_total by blast
  obtain qo qd where q: "luceneEscape (JStr so) = Some qo" "luceneEscape (JStr sd) = Some qd"
    by (simp add: luceneEscape_def)
  obtain los where los: "mapM seqToEntry rO = Some los"
    using mapM_total [of rO seqToEntry] seqToEntry_total by blast
  obtain lds where lds: "mapM seqToEntry rD = Some lds"
    using mapM_total [of rD seqToEntry] seqToEntry_total by blast
  have lo_ok: "optchain call_toUpperCase (linea lo) \<noteq> None" if "lo \<in> set los" for lo
  proof -
    from that obtain s where "s \<in> set rO" "seqToEntry s = Some lo"
      using mapM_mem [OF los, of lo] by blast
    with rO [of s] seqToEntry_linea [of s lo] show ?thesis by simp
  qed
  have ld_ok: "optchain call_toUpperCase (linea ld) \<noteq> None" if "ld \<in> set lds" for ld
  proof -
    from that obtain s where "s \<in> set rD" "seqToEntry s = Some ld"
      using mapM_mem [OF lds, of ld] by blast
    with rD [of s] seqToEntry_linea [of s ld] show ?thesis by simp
  qed
  obtain qlo where qlo: "mapM luceneEscape (new_Set (filter truthy (map linea los))) = Some qlo"
  proof -
    have "\<exists>q. luceneEscape v = Some q" if "v \<in> set (new_Set (filter truthy (map linea los)))" for v
      using that lo_ok by (auto simp: set_new_Set intro: luceneEscape_etiqueta)
    with mapM_total [of _ luceneEscape] that show thesis by blast
  qed
  obtain qld where qld: "mapM luceneEscape (new_Set (filter truthy (map linea lds))) = Some qld"
  proof -
    have "\<exists>q. luceneEscape v = Some q" if "v \<in> set (new_Set (filter truthy (map linea lds)))" for v
      using that ld_ok by (auto simp: set_new_Set intro: luceneEscape_etiqueta)
    with mapM_total [of _ luceneEscape] that show thesis by blast
  qed
  let ?seqs = "if new_Set (filter truthy (map linea los)) \<noteq> [] then fO else []"
  let ?seqsD = "if new_Set (filter truthy (map linea lds)) \<noteq> [] then fD else []"
  obtain act where act: "lineasActivas_de tod = Some act"
  proof -
    from tod have "\<exists>us. mapM (\<lambda>r. optchain call_toUpperCase (ayto_etiqLinea r)) tod = Some us"
      by (intro mapM_total) auto
    with that show thesis by (auto simp: lineasActivas_de_def)
  qed
  obtain m where m: "paradaALineas_de Map.empty (?seqs @ ?seqsD) = Some m"
    using paradaALineas_de_total by blast
  obtain cands where cands: "rutasDirectas_de oi di es los lds = Some cands"
  proof -
    have t: "\<exists>b. estOrigen_test oi lo e = Some b" if "lo \<in> set los" "e \<in> set es" for lo e
    proof -
      obtain n where "optchain call_toString (paradaId e) = Some n"
        using optchain_toString_total by blast
      with so es [OF that(2)] lo_ok [OF that(1)] show ?thesis
        by (auto simp: estOrigen_test_def)
    qed
    have d: "\<exists>l. directa_de oi di es lo ld = Some l" if "lo \<in> set los" for lo ld
    proof -
      from t [OF that] obtain eo where "filterM (estOrigen_test oi lo) es = Some eo"
        using filterM_total [of es "estOrigen_test oi lo"] by blast
      then show ?thesis by (simp add: directa_de_def)
    qed
    have i: "\<exists>l. concatM (directa_de oi di es lo) lds = Some l" if "lo \<in> set los" for lo
      using d [OF that] by (rule concatM_total)
    have "\<exists>c. rutasDirectas_de oi di es los lds = Some c"
      unfolding rutasDirectas_de_def using i by (rule concatM_total)
    with that show thesis by blast
  qed
  obtain us where us: "rutasDirectasUnicas_de act cands = Some us"
  proof -
    have "\<exists>b. unica_test act cands iv = Some b" if "iv \<in> set (zip [0..<length cands] cands)" for iv
    proof -
      obtain i v where iv: "iv = (i, v)" by (cases iv)
      with that have "v \<in> set cands" by (auto dest: set_zip_rightD)
      from rutasDirectas_de_mem [OF cands this] lo_ok
      have "optchain call_toUpperCase (d_linea v) \<noteq> None" by auto
      then show ?thesis by (auto simp: unica_test_def iv)
    qed
    then have "\<exists>ivs. filterM (unica_test act cands) (zip [0..<length cands] cands) = Some ivs"
      by (intro filterM_total) auto
    with that show thesis by (auto simp: rutasDirectasUnicas_de_def)
  qed
  obtain rts where rts: "(if us = [] then rutasTransbordo_de oi di ?seqs m los lds else Some []) = Some rts"
  proof (cases "us = []")
    case False
    with that show ?thesis by simp
  next
    case True
    obtain ps where ps: "paradasIntermedias_de los [] ?seqs = Some ps"
      using paradasIntermedias_de_total by blast
    have f: "\<exists>r. findM (seqOrigen_test los p) ?seqs = Some r" for p
    proof (rule findM_total)
      fix s :: seq_raw
      obtain n where "optchain call_toString (ayto_NParada s) = Some n"
        using optchain_toString_total by blast
      then show "\<exists>b. seqOrigen_test los p s = Some b" by (simp add: seqOrigen_test_def)
    qed
    have t: "\<exists>l. transbordo_de oi di ?seqs los p li ld = Some l" for p li ld
    proof -
      from f [of p] obtain r where "findM (seqOrigen_test los p) ?seqs = Some r" by blast
      then show ?thesis by (cases r) (simp_all add: transbordo_de_def Let_def)
    qed
    have e: "\<exists>l. transbordos_en oi di ?seqs m los lds p = Some l" for p
    proof -
      have "\<exists>l. concatM (transbordo_de oi di ?seqs los p li) lds = Some l" for li
        using t by (rule concatM_total)
      then have "\<exists>l. concatM (\<lambda>li. concatM (transbordo_de oi di ?seqs los p li) lds) lis = Some l" for lis
        by (rule concatM_total)
      with so sd show ?thesis by (simp add: transbordos_en_def Let_def)
    qed
    then have "\<exists>r. concatM (transbordos_en oi di ?seqs m los lds) ps = Some r"
      by (rule concatM_total)
    with ps True that show ?thesis by (auto simp: rutasTransbordo_de_def)
  qed
  obtain ra where ra: "filterM (transbordo_activo act) rts = Some ra"
  proof -
    have "\<exists>b. transbordo_activo act t = Some b" if "t \<in> set rts" for t
    proof -
      from rts that have r: "rutasTransbordo_de oi di ?seqs m los lds = Some rts"
        by (auto split: if_splits)
      from rutasTransbordo_de_lineas [OF r that] lo_ok ld_ok
      have "optchain call_toUpperCase (t1_linea (tramo1 t)) \<noteq> None"
        "optchain call_toUpperCase (t2_linea (tramo2 t)) \<noteq> None"
        by auto
      then show ?thesis by (auto simp: transbordo_activo_def)
    qed
    with filterM_total [of rts "transbordo_activo act"] that show thesis by blast
  qed
  show ?thesis
    unfolding planificarRuta_def Let_def
    by (simp only: so sd q los lds qlo qld act m cands us rts ra Option.bind.simps) simp
qed

section \<open>The normalisation of a record of the sequence\<close>









section \<open>The cache\<close>

lemma cache_acierto:
  "data c = Some d \<Longrightarrow> now - ts c < CACHE_TTL_MS \<Longrightarrow>
   getTodasEstimacionesCached now fetched c = (Inr d, c, 0)"
  by (simp add: getTodasEstimacionesCached_def)

lemma cache_fallo:
  "data c = None \<or> CACHE_TTL_MS \<le> now - ts c \<Longrightarrow>
   getTodasEstimacionesCached now (Inr result) c = (Inr result, \<lparr> data = Some result, ts = now \<rparr>, 1)"
  by (auto simp: getTodasEstimacionesCached_def)

lemma cache_fallo_sin_respuesta:
  "data c = None \<or> CACHE_TTL_MS \<le> now - ts c \<Longrightarrow>
   getTodasEstimacionesCached now (Inl e) c = (Inl e, c, 1)"
  by (auto simp: getTodasEstimacionesCached_def)

lemma cache_fallo_una_peticion:
  "data c = None \<or> CACHE_TTL_MS \<le> now - ts c \<Longrightarrow>
   snd (snd (getTodasEstimacionesCached now fetched c)) = 1"
  by (auto simp: getTodasEstimacionesCached_def split: sum.splits)

lemma traza_Nil: "traza [] s = s"
  by (simp add: traza_def)

lemma traza_Cons: "traza (e # evs) s = traza evs (paso e s)"
  by (simp add: traza_def)

lemma secuencial_Nil: "secuencial [] = []"
  by (simp add: secuencial_def)

lemma secuencial_Cons: "secuencial ((t, f) # calls) = Llama t # Responde 0 f # secuencial calls"
  by (simp add: secuencial_def)

text \<open>A call with no other call in between is \<open>getTodasEstimacionesCached\<close>.\<close>

lemma llamada_sola:
  assumes "pendientes s = []"
  shows "traza [Llama now, Responde 0 fetched] s
         = s \<lparr> cache_m := fst (snd (getTodasEstimacionesCached now fetched (cache_m s))),
               peticiones := peticiones s
                             + snd (snd (getTodasEstimacionesCached now fetched (cache_m s))) \<rparr>"
  using assms
  by (cases s; cases fetched)
     (simp_all add: traza_Nil traza_Cons getTodasEstimacionesCached_def)

lemma secuencial_sin_peticion:
  assumes "pendientes s = []" "data (cache_m s) \<noteq> None"
    and "\<forall>(t, f) \<in> set calls. t - ts (cache_m s) < CACHE_TTL_MS"
  shows "traza (secuencial calls) s = s"
  using assms
proof (induction calls)
  case Nil
  then show ?case by (simp add: secuencial_Nil traza_Nil)
next
  case (Cons a calls)
  obtain t f where a: "a = (t, f)" by (cases a)
  with Cons.prems have "paso (Llama t) s = s" by simp
  moreover from Cons.prems have "paso (Responde 0 f) s = s" by simp
  ultimately show ?case using Cons a by (simp add: secuencial_Cons traza_Cons)
qed

lemma secuencial_ventana:
  assumes "pendientes s = []"
    and "\<forall>(t, f) \<in> set calls. w \<le> t \<and> t < w + CACHE_TTL_MS \<and> (\<exists>r. f = Inr r)"
  shows "peticiones (traza (secuencial calls) s) \<le> peticiones s + 1"
  using assms
proof (induction calls arbitrary: s)
  case Nil
  then show ?case by (simp add: secuencial_Nil traza_Nil)
next
  case (Cons a calls)
  obtain t f where a: "a = (t, f)" by (cases a)
  with Cons.prems obtain r where f: "f = Inr r" and t: "w \<le> t" "t < w + CACHE_TTL_MS" by auto
  from Cons.prems have rest: "\<forall>(t, f) \<in> set calls. w \<le> t \<and> t < w + CACHE_TTL_MS \<and> (\<exists>r. f = Inr r)"
    by simp
  show ?case
  proof (cases "data (cache_m s) \<noteq> None \<and> t - ts (cache_m s) < CACHE_TTL_MS")
    case True
    with Cons.prems(1) have "paso (Llama t) s = s" "paso (Responde 0 f) s = s" by simp_all
    with Cons.IH [OF Cons.prems(1) rest] a show ?thesis by (simp add: secuencial_Cons traza_Cons)
  next
    case False
    define s' where "s' = s \<lparr> cache_m := \<lparr> data = Some r, ts = t \<rparr>, peticiones := Suc (peticiones s) \<rparr>"
    from False Cons.prems(1) have "paso (Responde 0 f) (paso (Llama t) s) = s'"
      by (cases s) (auto simp: f s'_def)
    moreover have "traza (secuencial calls) s' = s'"
    proof (rule secuencial_sin_peticion)
      from Cons.prems(1) show "pendientes s' = []" by (simp add: s'_def)
      show "data (cache_m s') \<noteq> None" by (simp add: s'_def)
      from rest t show "\<forall>(t', f) \<in> set calls. t' - ts (cache_m s') < CACHE_TTL_MS"
        by (auto simp: s'_def)
    qed
    ultimately show ?thesis using a by (simp add: secuencial_Cons traza_Cons s'_def)
  qed
qed

text \<open>
  C7 (amended). A call at time \<open>now\<close> with a stored snapshot and \<open>now - ts < 30000\<close> returns
  the stored snapshot, leaves the cache as it is and makes no request. Any other call
  makes exactly one request; when the request is answered the call stores the answer with
  its own clock reading and returns it, and when the request fails the call throws and
  the cache stays as it was. A call during which no other call runs is one step of that
  kind on the state of the module, and calls that do not overlap, with their times in a
  window shorter than 30 seconds and their requests answered, make at most one request
  together.
\<close>

theorem cache_llamadas:
  "(data c = Some d \<and> now - ts c < CACHE_TTL_MS
      \<longrightarrow> getTodasEstimacionesCached now fetched c = (Inr d, c, 0))
   \<and> (data c = None \<or> CACHE_TTL_MS \<le> now - ts c
      \<longrightarrow> getTodasEstimacionesCached now (Inr result) c
            = (Inr result, \<lparr> data = Some result, ts = now \<rparr>, 1)
          \<and> getTodasEstimacionesCached now (Inl e) c = (Inl e, c, 1)
          \<and> snd (snd (getTodasEstimacionesCached now fetched c)) = 1)
   \<and> (pendientes s = []
      \<longrightarrow> traza [Llama now, Responde 0 fetched] s
            = s \<lparr> cache_m := fst (snd (getTodasEstimacionesCached now fetched (cache_m s))),
                  peticiones := peticiones s
                                + snd (snd (getTodasEstimacionesCached now fetched (cache_m s))) \<rparr>
          \<and> ((\<forall>(t, f) \<in> set calls. w \<le> t \<and> t < w + CACHE_TTL_MS \<and> (\<exists>r. f = Inr r))
              \<longrightarrow> peticiones (traza (secuencial calls) s) \<le> peticiones s + 1))"
  using cache_acierto [of c d now fetched] cache_fallo [of c now result]
    cache_fallo_sin_respuesta [of c now e] cache_fallo_una_peticion [of c now fetched]
    llamada_sola [of s now fetched] secuencial_ventana [of s calls w]
  by blast

theorem cache_llamadas_witness:
  "getTodasEstimacionesCached 20000 (Inr snapshot_7) \<lparr> data = Some snapshot_15, ts = 1000 \<rparr>
     = (Inr snapshot_15, \<lparr> data = Some snapshot_15, ts = 1000 \<rparr>, 0)
   \<and> getTodasEstimacionesCached 31000 (Inr snapshot_7) \<lparr> data = Some snapshot_15, ts = 1000 \<rparr>
     = (Inr snapshot_7, \<lparr> data = Some snapshot_7, ts = 31000 \<rparr>, 1)
   \<and> getTodasEstimacionesCached 31000 (Inl HttpError) \<lparr> data = Some snapshot_15, ts = 1000 \<rparr>
     = (Inl HttpError, \<lparr> data = Some snapshot_15, ts = 1000 \<rparr>, 1)
   \<and> peticiones (traza (secuencial [(1000, Inr snapshot_15), (20000, Inr snapshot_7)]) modulo_inicial) \<le> 1"
proof -
  let ?c = "\<lparr> data = Some snapshot_15, ts = 1000 \<rparr>"
  let ?calls = "[(1000, Inr snapshot_15), (20000, Inr snapshot_7)]
                  :: (int \<times> (fetch_error + snapshot)) list"
  have h1: "data ?c = Some snapshot_15 \<and> 20000 - ts ?c < CACHE_TTL_MS"
    by (simp add: CACHE_TTL_MS_def)
  have h2: "data ?c = None \<or> CACHE_TTL_MS \<le> 31000 - ts ?c"
    by (simp add: CACHE_TTL_MS_def)
  have h3: "\<forall>(t, f) \<in> set ?calls. 1000 \<le> t \<and> t < 1000 + CACHE_TTL_MS \<and> (\<exists>r. f = Inr r)"
    by (simp add: CACHE_TTL_MS_def)
  have h4: "pendientes modulo_inicial = []" "peticiones modulo_inicial = 0"
    by (simp_all add: modulo_inicial_def)
  from cache_llamadas [of ?c snapshot_15 20000 "Inr snapshot_7" snapshot_7 HttpError
      modulo_inicial ?calls 1000] h1
  have "getTodasEstimacionesCached 20000 (Inr snapshot_7) ?c = (Inr snapshot_15, ?c, 0)"
    by blast
  moreover from cache_llamadas [of ?c snapshot_15 31000 "Inr snapshot_7" snapshot_7 HttpError
      modulo_inicial ?calls 1000] h2
  have "getTodasEstimacionesCached 31000 (Inr snapshot_7) ?c
          = (Inr snapshot_7, \<lparr> data = Some snapshot_7, ts = 31000 \<rparr>, 1)"
       "getTodasEstimacionesCached 31000 (Inl HttpError) ?c = (Inl HttpError, ?c, 1)"
    by blast+
  moreover from cache_llamadas [of ?c snapshot_15 0 "Inr snapshot_7" snapshot_7 HttpError
      modulo_inicial ?calls 1000] h3 h4
  have "peticiones (traza (secuencial ?calls) modulo_inicial) \<le> 1" by simp
  ultimately show ?thesis by blast
qed

text \<open>
  The claim as stated fails: two calls five milliseconds apart make two requests when the
  second begins while the first still waits for its answer, and also when the request of
  the first fails.
\<close>

theorem cache_dos_peticiones:
  "peticiones (traza [Llama 1000, Llama 1005, Responde 0 (Inr snapshot_15), Responde 0 (Inr snapshot_7)]
                 modulo_inicial) = 2
   \<and> peticiones (traza (secuencial [(1000, Inl HttpError), (1005, Inr snapshot_7)]) modulo_inicial) = 2"
  by (simp add: traza_def secuencial_def modulo_inicial_def cache_inicial_def CACHE_TTL_MS_def)

section \<open>The tools\<close>

lemma planificar_ruta_distintas:
  "planificar_ruta a b = Invoca x y \<Longrightarrow> x \<noteq> y"
  by (auto simp: planificar_ruta_def split: if_splits)

lemma planificar_ruta_iguales: "\<exists>m. planificar_ruta a a = Rechaza m"
  by (simp add: planificar_ruta_def)

text \<open>
  C6. \<open>planificar_ruta\<close> rejects equal stops before it calls the planner (the two lemmas
  above). \<open>ruta_desde_nombres\<close> has no such test: when the two searches find the same stop
  first, it calls \<open>planificarRuta\<close> with equal ids.
\<close>

theorem ruta_desde_nombres_misma_parada:
  "ruta_desde_nombres ''Valdecilla'' ''Valdecilla''
     [\<lparr> p_numero = JStr ''42'', p_nombre = JStr ''Valdecilla'', p_direccion = JStr ''Avenida Valdecilla'' \<rparr>]
     [\<lparr> p_numero = JStr ''42'', p_nombre = JStr ''Valdecilla'', p_direccion = JStr ''Avenida Valdecilla'' \<rparr>]
   = Invoca (JStr ''42'') (JStr ''42'')"
  by (simp add: ruta_desde_nombres_def)

end
